theory Spec2Isabelle
  imports Complex_Main "HOL-Library.Multiset"
begin

section \<open>Tensors\<close>

text \<open>
  The script \<^verbatim>\<open>main.py\<close> trains a variational autoencoder on CIFAR-10.  Its own code is
  the loss function, the training loop, the evaluation loop and the epoch driver; the
  network (\<^verbatim>\<open>models.ConvolutionalVAE\<close>), the optimiser, automatic differentiation, the
  random number generator and the image writer are library code and appear below as
  parameters.

  A tensor is its shape together with its entries in row-major order.  Entries are
  real numbers: arithmetic is exact, so rounding, overflow to infinity and NaN of the
  32-bit floats of the program are outside this development.
\<close>

datatype error =
    ViewShapeError
  | TargetSizeError
  | InputRangeError
  | TargetRangeError
  | BroadcastError
  | CatShapeError
  | IndexError
  | ZeroDivisionError
  | ValueError
  | StackShapeError
  | LibraryError nat

record tensor =
  dims :: "nat list"
  elems :: "real list"

definition numel :: "tensor \<Rightarrow> nat" where
  "numel t = prod_list (dims t)"

definition wf_tensor :: "tensor \<Rightarrow> bool" where
  "wf_tensor t \<longleftrightarrow> length (elems t) = numel t"

text \<open>
  \<^verbatim>\<open>Tensor.view(*sz)\<close>: at most one entry of the requested shape may be \<^verbatim>\<open>-1\<close>, and it
  is inferred from the number of elements; any other mismatch raises \<^verbatim>\<open>RuntimeError\<close>.
\<close>

definition view :: "tensor \<Rightarrow> int list \<Rightarrow> error + tensor" where
  "view t sz =
     (let known = prod_list (map nat (filter (\<lambda>d. d \<noteq> - 1) sz)) in
      if list_ex (\<lambda>d. d < - 1) sz then Inl ViewShapeError
      else if 1 < length (filter (\<lambda>d. d = - 1) sz) then Inl ViewShapeError
      else if list_ex (\<lambda>d. d = - 1) sz then
        (if known = 0 \<or> numel t mod known \<noteq> 0 then Inl ViewShapeError
         else Inr \<lparr>dims = map (\<lambda>d. if d = - 1 then numel t div known else nat d) sz,
                   elems = elems t\<rparr>)
      else if known \<noteq> numel t then Inl ViewShapeError
      else Inr \<lparr>dims = map nat sz, elems = elems t\<rparr>)"

text \<open>
  Broadcasting of two shapes, aligned at the last dimension: two extents agree when
  they are equal or one of them is 1.
\<close>

fun broadcast_rev :: "nat list \<Rightarrow> nat list \<Rightarrow> nat list option" where
  "broadcast_rev [] ys = Some ys"
| "broadcast_rev xs [] = Some xs"
| "broadcast_rev (x # xs) (y # ys) =
     (if x = y \<or> y = 1 then map_option ((#) x) (broadcast_rev xs ys)
      else if x = 1 then map_option ((#) y) (broadcast_rev xs ys)
      else None)"

definition broadcast_shapes :: "nat list \<Rightarrow> nat list \<Rightarrow> nat list option" where
  "broadcast_shapes s1 s2 = map_option rev (broadcast_rev (rev s1) (rev s2))"

fun expand_elems :: "nat list \<Rightarrow> nat list \<Rightarrow> real list \<Rightarrow> real list" where
  "expand_elems (a # s) (b # r) xs =
     (if a = b
      then concat (map (\<lambda>i. expand_elems s r (take (prod_list s) (drop (i * prod_list s) xs)))
                       [0..<a])
      else concat (replicate b (expand_elems s r xs)))"
| "expand_elems s r xs = xs"

definition expand :: "tensor \<Rightarrow> nat list \<Rightarrow> tensor" where
  "expand t r =
     \<lparr>dims = r,
      elems = expand_elems (replicate (length r - length (dims t)) 1 @ dims t) r (elems t)\<rparr>"

definition broadcast_tensors :: "tensor \<Rightarrow> tensor \<Rightarrow> error + (tensor \<times> tensor)" where
  "broadcast_tensors a b =
     (case broadcast_shapes (dims a) (dims b) of
        None \<Rightarrow> Inl BroadcastError
      | Some r \<Rightarrow> Inr (expand a r, expand b r))"

text \<open>Elementwise operations of the tensor library used by the loss.\<close>

definition scalar_add :: "real \<Rightarrow> tensor \<Rightarrow> tensor" where
  "scalar_add c t = t\<lparr>elems := map (\<lambda>v. c + v) (elems t)\<rparr>"

definition tensor_pow :: "tensor \<Rightarrow> nat \<Rightarrow> tensor" where
  "tensor_pow t n = t\<lparr>elems := map (\<lambda>v. v ^ n) (elems t)\<rparr>"

definition tensor_exp :: "tensor \<Rightarrow> tensor" where
  "tensor_exp t = t\<lparr>elems := map exp (elems t)\<rparr>"

definition tensor_sub :: "tensor \<Rightarrow> tensor \<Rightarrow> error + tensor" where
  "tensor_sub a b =
     (case broadcast_tensors a b of
        Inl e \<Rightarrow> Inl e
      | Inr (a', b') \<Rightarrow>
          Inr \<lparr>dims = dims a', elems = map2 (\<lambda>p q. p - q) (elems a') (elems b')\<rparr>)"

definition tensor_sum :: "tensor \<Rightarrow> real" where
  "tensor_sum t = sum_list (elems t)"

section \<open>The loss function\<close>

text \<open>
  \<^verbatim>\<open>F.binary_cross_entropy(input, target, reduction='sum')\<close>.  The library raises
  \<^verbatim>\<open>ValueError\<close> when the two sizes differ.  Then it goes through the entries in order and,
  at each position, raises \<^verbatim>\<open>RuntimeError\<close> when the entry of the input is outside the unit
  interval, and next when the entry of the target is.  Each logarithm is clamped from
  below at \<open>-100\<close>; the logarithm of 0 is minus infinity in the program and so yields the
  clamp value.
\<close>

definition clamped_log :: "real \<Rightarrow> real" where
  "clamped_log v = (if v \<le> 0 then - 100 else max (ln v) (- 100))"

definition bce_elem :: "real \<Rightarrow> real \<Rightarrow> real" where
  "bce_elem r y = (y - 1) * clamped_log (1 - r) - y * clamped_log r"

fun bce_check :: "(real \<times> real) list \<Rightarrow> error option" where
  "bce_check [] = None"
| "bce_check ((r, y) # ps) =
     (if \<not> (0 \<le> r \<and> r \<le> 1) then Some InputRangeError
      else if \<not> (0 \<le> y \<and> y \<le> 1) then Some TargetRangeError
      else bce_check ps)"

definition binary_cross_entropy :: "tensor \<Rightarrow> tensor \<Rightarrow> error + real" where
  "binary_cross_entropy inp target =
     (if dims target \<noteq> dims inp then Inl TargetSizeError
      else case bce_check (zip (elems inp) (elems target)) of
             Some e \<Rightarrow> Inl e
           | None \<Rightarrow> Inr (sum_list (map2 bce_elem (elems inp) (elems target))))"

text \<open>
  \<^verbatim>\<open>F.mse_loss(input, target, reduction='sum')\<close>: differing sizes only produce a warning,
  the two tensors are broadcast against each other.
\<close>

definition mse_loss :: "tensor \<Rightarrow> tensor \<Rightarrow> error + real" where
  "mse_loss inp target =
     (case broadcast_tensors inp target of
        Inl e \<Rightarrow> Inl e
      | Inr (a, b) \<Rightarrow> Inr (sum_list (map2 (\<lambda>p q. (p - q)\<^sup>2) (elems a) (elems b))))"

text \<open>
  Line 62 of the script:
  \<^verbatim>\<open>KLD = -0.5 * torch.sum(1 + logvar - mu.pow(2) - logvar.exp())\<close>.
\<close>

definition KLD :: "tensor \<Rightarrow> tensor \<Rightarrow> error + real" where
  "KLD mu logvar =
     (case tensor_sub (scalar_add 1 logvar) (tensor_pow mu 2) of
        Inl e \<Rightarrow> Inl e
      | Inr d \<Rightarrow>
          (case tensor_sub d (tensor_exp logvar) of
             Inl e \<Rightarrow> Inl e
           | Inr d' \<Rightarrow> Inr (- 0.5 * tensor_sum d')))"

text \<open>
  \<^verbatim>\<open>loss_function(recon_x, x, mu, logvar, recon_type='BCE')\<close>.  Both reconstruction terms
  and the KL term are computed, in this order, before the selector is looked at; the
  first exception raised ends the call.
\<close>

definition loss_function ::
    "tensor \<Rightarrow> tensor \<Rightarrow> tensor \<Rightarrow> tensor \<Rightarrow> string \<Rightarrow> error + real" where
  "loss_function recon_x x mu logvar recon_type =
     (case view x [- 1, 3072] of
        Inl e \<Rightarrow> Inl e
      | Inr xv \<Rightarrow>
     (case binary_cross_entropy recon_x xv of
        Inl e \<Rightarrow> Inl e
      | Inr BCE \<Rightarrow>
     (case mse_loss recon_x xv of
        Inl e \<Rightarrow> Inl e
      | Inr MSE \<Rightarrow>
     (case KLD mu logvar of
        Inl e \<Rightarrow> Inl e
      | Inr kld \<Rightarrow>
          if recon_type = ''BCE'' then Inr (BCE + kld) else Inr (MSE + kld)))))"

text \<open>Constant tensors (\<^verbatim>\<open>torch.zeros\<close>, \<^verbatim>\<open>torch.full\<close>), used to write down concrete batches.\<close>

definition zeros :: "nat list \<Rightarrow> tensor" where
  "zeros s = \<lparr>dims = s, elems = replicate (prod_list s) 0\<rparr>"

definition full :: "nat list \<Rightarrow> real \<Rightarrow> tensor" where
  "full s c = \<lparr>dims = s, elems = replicate (prod_list s) c\<rparr>"

text \<open>
  The KL term as the specification writes it, for a batch of \<open>B\<close> examples with \<open>D\<close> latent
  dimensions: minus one half of the sum, over all examples and all latent dimensions, of
  \<open>1 + log\<sigma>\<^sup>2 - \<mu>\<^sup>2 - exp (log\<sigma>\<^sup>2)\<close>.  \<open>at2 t i j\<close> is entry \<open>j\<close> of row \<open>i\<close> of a
  two-dimensional tensor.
\<close>

definition at2 :: "tensor \<Rightarrow> nat \<Rightarrow> nat \<Rightarrow> real" where
  "at2 t i j = elems t ! (i * (dims t ! 1) + j)"

definition KL_term_spec ::
    "nat \<Rightarrow> nat \<Rightarrow> (nat \<Rightarrow> nat \<Rightarrow> real) \<Rightarrow> (nat \<Rightarrow> nat \<Rightarrow> real) \<Rightarrow> real" where
  "KL_term_spec B D mu logvar =
     - 0.5 * (\<Sum>i<B. \<Sum>j<D. 1 + logvar i j - (mu i j)\<^sup>2 - exp (logvar i j))"

section \<open>Further tensor operations\<close>

text \<open>\<^verbatim>\<open>t.size(0)\<close> and \<^verbatim>\<open>len(t)\<close>: the first extent; a tensor without dimensions has none.\<close>

definition size0 :: "tensor \<Rightarrow> error + nat" where
  "size0 t = (case dims t of [] \<Rightarrow> Inl IndexError | n # _ \<Rightarrow> Inr n)"

text \<open>\<^verbatim>\<open>t[:n]\<close>: the first \<open>n\<close> slices along dimension 0.\<close>

definition slice0 :: "tensor \<Rightarrow> nat \<Rightarrow> error + tensor" where
  "slice0 t n =
     (case dims t of
        [] \<Rightarrow> Inl IndexError
      | d # rest \<Rightarrow> Inr \<lparr>dims = min n d # rest, elems = take (min n d * prod_list rest) (elems t)\<rparr>)"

text \<open>
  \<^verbatim>\<open>torch.cat([a, b])\<close> along dimension 0.  A tensor without dimensions is refused; an
  empty tensor of one dimension is skipped; the other extents of what remains must agree.
\<close>

definition cat :: "tensor \<Rightarrow> tensor \<Rightarrow> error + tensor" where
  "cat a b =
     (case (dims a, dims b) of
        (m # ra, n # rb) \<Rightarrow>
          if dims a = [0] then Inr b
          else if dims b = [0] then Inr a
          else if ra = rb then Inr \<lparr>dims = (m + n) # ra, elems = elems a @ elems b\<rparr>
          else Inl CatShapeError
      | _ \<Rightarrow> Inl CatShapeError)"

text \<open>\<^verbatim>\<open>torch.stack\<close>, as the loader's collation uses it: a new leading dimension.\<close>

definition stack :: "tensor list \<Rightarrow> error + tensor" where
  "stack ts =
     (case ts of
        [] \<Rightarrow> Inl StackShapeError
      | t # _ \<Rightarrow>
          if list_all (\<lambda>u. dims u = dims t) ts
          then Inr \<lparr>dims = length ts # dims t, elems = concat (map elems ts)\<rparr>
          else Inl StackShapeError)"

text \<open>Python's \<^verbatim>\<open>/\<close> on numbers and \<^verbatim>\<open>str\<close> on integers.\<close>

definition py_div :: "real \<Rightarrow> real \<Rightarrow> error + real" where
  "py_div p q = (if q = 0 then Inl ZeroDivisionError else Inr (p / q))"

fun str_nat :: "nat \<Rightarrow> string" where
  "str_nat n =
     (if n < 10 then [''0123456789'' ! n]
      else str_nat (n div 10) @ [''0123456789'' ! (n mod 10)])"

declare str_nat.simps [simp del]

definition str :: "int \<Rightarrow> string" where
  "str i = (if i < 0 then CHR ''-'' # str_nat (nat (- i)) else str_nat (nat i))"

section \<open>Configuration and data loaders\<close>

record args =
  batch_size :: int
  epochs :: int
  no_cuda :: bool
  seed :: int
  log_interval :: int
  recon_loss :: string

text \<open>
  A dataset is the list of its examples, each an image tensor with its label.  A loader
  keeps the dataset it was built from, the batch size and the shuffle flag.  The
  constructor rejects a batch size that is not positive, and (through the random
  sampler that \<^verbatim>\<open>shuffle=True\<close> selects) an empty dataset.
\<close>

type_synonym dataset = "(tensor \<times> nat) list"

record dataloader =
  dataset :: dataset
  loader_batch_size :: int
  shuffle :: bool

definition DataLoader :: "dataset \<Rightarrow> int \<Rightarrow> bool \<Rightarrow> error + dataloader" where
  "DataLoader ds bs sh =
     (if sh \<and> ds = [] then Inl ValueError
      else if bs \<le> 0 then Inl ValueError
      else Inr \<lparr>dataset = ds, loader_batch_size = bs, shuffle = sh\<rparr>)"

text \<open>Lines 40 to 46: both loaders are built from the one \<^verbatim>\<open>cifar_dataset\<close>.\<close>

definition train_loader :: "args \<Rightarrow> dataset \<Rightarrow> error + dataloader" where
  "train_loader a cifar_dataset = DataLoader cifar_dataset (batch_size a) True"

definition test_loader :: "args \<Rightarrow> dataset \<Rightarrow> error + dataloader" where
  "test_loader a cifar_dataset = DataLoader cifar_dataset (batch_size a) True"

text \<open>
  One pass over a loader: the sampler's order of indices is cut into batches of the
  batch size (the last one may be shorter), and each batch is fetched when the loop
  reaches it: the examples are read and their images stacked.  The collation reads the
  first example of the batch, which fails on a batch without examples.
\<close>

fun chunks :: "nat \<Rightarrow> 'a list \<Rightarrow> 'a list list" where
  "chunks n xs = (if n = 0 \<or> xs = [] then [] else take n xs # chunks n (drop n xs))"

declare chunks.simps [simp del]

definition batch_indices :: "dataloader \<Rightarrow> nat list \<Rightarrow> nat list list" where
  "batch_indices ld order = chunks (nat (loader_batch_size ld)) order"

definition len_loader :: "dataloader \<Rightarrow> nat" where
  "len_loader ld =
     (length (dataset ld) + nat (loader_batch_size ld) - 1) div nat (loader_batch_size ld)"

fun getitems :: "dataset \<Rightarrow> nat list \<Rightarrow> error + (tensor \<times> nat) list" where
  "getitems ds [] = Inr []"
| "getitems ds (i # is) =
     (if i < length ds
      then (case getitems ds is of Inl e \<Rightarrow> Inl e | Inr xs \<Rightarrow> Inr (ds ! i # xs))
      else Inl IndexError)"

definition fetch :: "dataloader \<Rightarrow> nat list \<Rightarrow> error + tensor" where
  "fetch ld idxs =
     (case getitems (dataset ld) idxs of
        Inl e \<Rightarrow> Inl e
      | Inr [] \<Rightarrow> Inl IndexError
      | Inr (x # xs) \<Rightarrow> stack (map fst (x # xs)))"

section \<open>The library and the state of a run\<close>

text \<open>
  The library state \<open>'s\<close> holds whatever the tensor library keeps between calls: the
  network's weights, buffers and mode, the optimiser, the recorded gradients, the random
  number generator, the gradient mode and the files written.  The operations of the
  library that the script calls are the fields of \<open>torch_lib\<close>.
\<close>

record 's torch_lib =
  model_train :: "'s \<Rightarrow> 's"
  model_eval :: "'s \<Rightarrow> 's"
  model_call :: "tensor \<Rightarrow> 's \<Rightarrow> (error + tensor \<times> tensor \<times> tensor) \<times> 's"
  model_decode :: "tensor \<Rightarrow> 's \<Rightarrow> (error + tensor) \<times> 's"
  zero_grad :: "'s \<Rightarrow> 's"
  backward :: "real \<Rightarrow> 's \<Rightarrow> 's"
  optimizer_step :: "'s \<Rightarrow> 's"
  is_grad_enabled :: "'s \<Rightarrow> bool"
  set_grad_enabled :: "bool \<Rightarrow> 's \<Rightarrow> 's"
  randperm :: "nat \<Rightarrow> 's \<Rightarrow> nat list \<times> 's"
  randn :: "nat list \<Rightarrow> 's \<Rightarrow> tensor \<times> 's"
  save_image :: "tensor \<Rightarrow> string \<Rightarrow> nat \<Rightarrow> 's \<Rightarrow> (error + unit) \<times> 's"

text \<open>
  What a run shows to the outside: the lines it prints (with the numbers they format)
  and the image files it has saved.
\<close>

datatype event =
    TrainProgress int nat nat real real
  | TrainAverage int real
  | TestLoss real
  | SavedImage string tensor nat

record 's state =
  lib :: 's
  out :: "event list"

text \<open>
  A statement of the script maps the state to a result and the state it leaves; the
  result is the exception raised, or a value.  The state is kept when an exception is
  raised.
\<close>

type_synonym ('a, 's) prog = "'s state \<Rightarrow> (error + 'a) \<times> 's state"

definition return :: "'a \<Rightarrow> ('a, 's) prog" where
  "return v = (\<lambda>s. (Inr v, s))"

definition raise :: "error \<Rightarrow> ('a, 's) prog" where
  "raise e = (\<lambda>s. (Inl e, s))"

definition bind :: "('a, 's) prog \<Rightarrow> ('a \<Rightarrow> ('b, 's) prog) \<Rightarrow> ('b, 's) prog" where
  "bind m f = (\<lambda>s. case m s of (Inl e, s') \<Rightarrow> (Inl e, s') | (Inr v, s') \<Rightarrow> f v s')"

definition pure :: "error + 'a \<Rightarrow> ('a, 's) prog" where
  "pure r = (\<lambda>s. (r, s))"

definition lift :: "('s \<Rightarrow> 's) \<Rightarrow> (unit, 's) prog" where
  "lift f = (\<lambda>s. (Inr (), s\<lparr>lib := f (lib s)\<rparr>))"

definition draw :: "('s \<Rightarrow> 'a \<times> 's) \<Rightarrow> ('a, 's) prog" where
  "draw f = (\<lambda>s. case f (lib s) of (v, l) \<Rightarrow> (Inr v, s\<lparr>lib := l\<rparr>))"

definition call :: "('s \<Rightarrow> (error + 'a) \<times> 's) \<Rightarrow> ('a, 's) prog" where
  "call f = (\<lambda>s. case f (lib s) of (r, l) \<Rightarrow> (r, s\<lparr>lib := l\<rparr>))"

definition print :: "event \<Rightarrow> (unit, 's) prog" where
  "print ev = (\<lambda>s. (Inr (), s\<lparr>out := out s @ [ev]\<rparr>))"

text \<open>\<^verbatim>\<open>save_image\<close> writes through the library; a file that was written is recorded.\<close>

definition save :: "'s torch_lib \<Rightarrow> tensor \<Rightarrow> string \<Rightarrow> nat \<Rightarrow> (unit, 's) prog" where
  "save L t name nrow =
     bind (call (save_image L t name nrow)) (\<lambda>_. print (SavedImage name t nrow))"

text \<open>
  \<^verbatim>\<open>with torch.no_grad():\<close> switches gradient recording off for its body and restores
  the previous mode when the body is left, also by an exception.
\<close>

definition no_grad :: "'s torch_lib \<Rightarrow> ('a, 's) prog \<Rightarrow> ('a, 's) prog" where
  "no_grad L body =
     (\<lambda>s. let prev = is_grad_enabled L (lib s) in
          case body (s\<lparr>lib := set_grad_enabled L False (lib s)\<rparr>) of
            (r, s') \<Rightarrow> (r, s'\<lparr>lib := set_grad_enabled L prev (lib s')\<rparr>))"

text \<open>A \<^verbatim>\<open>for\<close> loop that carries its accumulator; an exception ends it.\<close>

fun for_loop :: "'a list \<Rightarrow> ('a \<Rightarrow> 'b \<Rightarrow> ('b, 's) prog) \<Rightarrow> 'b \<Rightarrow> ('b, 's) prog" where
  "for_loop [] body acc = return acc"
| "for_loop (x # xs) body acc = bind (body x acc) (for_loop xs body)"

section \<open>Training, evaluation and the epoch loop\<close>

text \<open>One iteration of the loop of \<^verbatim>\<open>train\<close>, lines 76 to 91.\<close>

definition train_batch ::
    "'s torch_lib \<Rightarrow> args \<Rightarrow> dataloader \<Rightarrow> int \<Rightarrow> nat \<times> nat list \<Rightarrow> real \<Rightarrow> (real, 's) prog" where
  "train_batch L a ld epoch = (\<lambda>(batch_idx, idxs) train_loss.
     bind (pure (fetch ld idxs)) (\<lambda>data.
     bind (lift (zero_grad L)) (\<lambda>_.
     bind (call (model_call L data)) (\<lambda>(recon_batch, mu, logvar).
     bind (pure (loss_function recon_batch data mu logvar ''MSE'')) (\<lambda>loss.
     bind (lift (backward L loss)) (\<lambda>_.
     bind (lift (optimizer_step L)) (\<lambda>_.
     bind (if log_interval a = 0 then raise ZeroDivisionError
           else if int batch_idx mod log_interval a = 0 then
             bind (pure (size0 data)) (\<lambda>n.
             bind (pure (py_div (100 * real batch_idx) (real (len_loader ld)))) (\<lambda>pct.
             bind (pure (py_div loss (real n))) (\<lambda>per_example.
             print (TrainProgress epoch (batch_idx * n) (length (dataset ld)) pct per_example))))
           else return ()) (\<lambda>_.
     return (train_loss + loss)))))))))"

text \<open>
  \<^verbatim>\<open>train(epoch)\<close>.  The scheduler built at line 74 is never stepped and is left out.
\<close>

definition train :: "'s torch_lib \<Rightarrow> args \<Rightarrow> dataloader \<Rightarrow> int \<Rightarrow> (unit, 's) prog" where
  "train L a ld epoch =
     bind (lift (model_train L)) (\<lambda>_.
     bind (draw (randperm L (length (dataset ld)))) (\<lambda>order.
     bind (for_loop (enumerate 0 (batch_indices ld order)) (train_batch L a ld epoch) 0)
       (\<lambda>train_loss.
     bind (pure (py_div train_loss (real (length (dataset ld))))) (\<lambda>avg.
     print (TrainAverage epoch avg)))))"

text \<open>One iteration of the loop of \<^verbatim>\<open>test\<close>, lines 101 to 110.\<close>

definition test_batch ::
    "'s torch_lib \<Rightarrow> args \<Rightarrow> dataloader \<Rightarrow> string \<Rightarrow> int \<Rightarrow> nat \<times> nat list \<Rightarrow> real
       \<Rightarrow> (real, 's) prog" where
  "test_batch L a ld timestring epoch = (\<lambda>(i, idxs) test_loss.
     bind (pure (fetch ld idxs)) (\<lambda>data.
     bind (call (model_call L data)) (\<lambda>(recon_batch, mu, logvar).
     bind (pure (loss_function recon_batch data mu logvar ''MSE'')) (\<lambda>loss.
     bind (if i = 0 then
             bind (pure (size0 data)) (\<lambda>d0.
             bind (pure (slice0 data (min d0 8))) (\<lambda>originals.
             bind (pure (view recon_batch [batch_size a, 3, 32, 32])) (\<lambda>images.
             bind (pure (slice0 images (min d0 8))) (\<lambda>reconstructions.
             bind (pure (cat originals reconstructions)) (\<lambda>comparison.
             save L comparison
               (''results_c/reconstruction_'' @ timestring @ str epoch @ ''.png'')
               (min d0 8))))))
           else return ()) (\<lambda>_.
     return (test_loss + loss))))))"

definition test ::
    "'s torch_lib \<Rightarrow> args \<Rightarrow> dataloader \<Rightarrow> string \<Rightarrow> int \<Rightarrow> (unit, 's) prog" where
  "test L a ld timestring epoch =
     bind (lift (model_eval L)) (\<lambda>_.
     bind (no_grad L
             (bind (draw (randperm L (length (dataset ld)))) (\<lambda>order.
              for_loop (enumerate 0 (batch_indices ld order))
                (test_batch L a ld timestring epoch) 0)))
       (\<lambda>test_loss.
     bind (pure (py_div test_loss (real (length (dataset ld))))) (\<lambda>avg.
     print (TestLoss avg))))"

text \<open>Lines 117 to 126.\<close>

record struct_time =
  tm_year :: int
  tm_mon :: int
  tm_mday :: int
  tm_hour :: int

definition timestring :: "struct_time \<Rightarrow> string" where
  "timestring timestamp =
     ''_'' @ str (tm_year timestamp) @ ''_'' @ str (tm_mon timestamp) @ ''_''
       @ str (tm_mday timestamp) @ ''_'' @ str (tm_hour timestamp) @ ''_''"

definition sample_images :: "'s torch_lib \<Rightarrow> string \<Rightarrow> int \<Rightarrow> (unit, 's) prog" where
  "sample_images L ts epoch =
     no_grad L
       (bind (draw (randn L [64, 128])) (\<lambda>sample.
        bind (call (model_decode L sample)) (\<lambda>sample.
        bind (pure (view sample [64, 3, 32, 32])) (\<lambda>images.
        save L images (''results_c/sample_'' @ ts @ str epoch @ ''.png'') 8))))"

definition epoch_body ::
    "'s torch_lib \<Rightarrow> args \<Rightarrow> dataloader \<Rightarrow> dataloader \<Rightarrow> string \<Rightarrow> int \<Rightarrow> (unit, 's) prog" where
  "epoch_body L a trn tst ts epoch =
     bind (train L a trn epoch) (\<lambda>_.
     bind (test L a tst ts epoch) (\<lambda>_.
     sample_images L ts epoch))"

definition main ::
    "'s torch_lib \<Rightarrow> args \<Rightarrow> dataloader \<Rightarrow> dataloader \<Rightarrow> struct_time \<Rightarrow> (unit, 's) prog" where
  "main L a trn tst timestamp =
     for_loop [1..epochs a] (\<lambda>epoch _. epoch_body L a trn tst (timestring timestamp) epoch) ()"

text \<open>The script from line 37 on: the loaders are built, then the epochs run.\<close>

definition script :: "'s torch_lib \<Rightarrow> args \<Rightarrow> dataset \<Rightarrow> struct_time \<Rightarrow> (unit, 's) prog" where
  "script L a cifar_dataset timestamp =
     bind (pure (train_loader a cifar_dataset)) (\<lambda>trn.
     bind (pure (test_loader a cifar_dataset)) (\<lambda>tst.
     main L a trn tst timestamp))"

section \<open>Observations\<close>




text \<open>
  The loss of one batch as the specification describes it for both loops: the batch is
  fetched from the loader, the network is run on it (in some state of the library), and
  the loss is the squared-error term plus the KL term of what the network returns, which
  is the value of \<^verbatim>\<open>loss_function\<close> called with \<open>MSE\<close>.
\<close>

definition batch_loss_spec :: "'s torch_lib \<Rightarrow> dataloader \<Rightarrow> nat list \<Rightarrow> real \<Rightarrow> bool" where
  "batch_loss_spec L ld idxs loss \<longleftrightarrow>
     (\<exists>data recon_batch mu logvar l l' xv MSE kld.
        fetch ld idxs = Inr data
      \<and> model_call L data l = (Inr (recon_batch, mu, logvar), l')
      \<and> loss_function recon_batch data mu logvar ''MSE'' = Inr loss
      \<and> view data [- 1, 3072] = Inr xv
      \<and> mse_loss recon_batch xv = Inr MSE
      \<and> KLD mu logvar = Inr kld
      \<and> loss = MSE + kld)"

text \<open>
  A small instance of the library, to run the script on: the library state is a weight
  and a counter of random draws; the network reconstructs every image as constant 0.5
  with two latent dimensions of mean and log-variance 0, the optimiser step adds 1 to
  the weight, the sampler keeps the order of the dataset, and saving always succeeds.
\<close>

definition toy_lib :: "(int \<times> nat) torch_lib" where
  "toy_lib =
     \<lparr>model_train = (\<lambda>l. l),
      model_eval = (\<lambda>l. l),
      model_call = (\<lambda>x l.
        (case dims x of
           [] \<Rightarrow> Inl (LibraryError 0)
         | n # _ \<Rightarrow> Inr (full [n, 3072] 0.5, zeros [n, 2], zeros [n, 2]), l)),
      model_decode = (\<lambda>z l.
        (case dims z of [] \<Rightarrow> Inl (LibraryError 0) | n # _ \<Rightarrow> Inr (full [n, 3072] 0.5), l)),
      zero_grad = (\<lambda>l. l),
      backward = (\<lambda>loss l. l),
      optimizer_step = (\<lambda>(w, g). (w + 1, g)),
      is_grad_enabled = (\<lambda>l. True),
      set_grad_enabled = (\<lambda>b l. l),
      randperm = (\<lambda>n (w, g). ([0..<n], (w, g + 1))),
      randn = (\<lambda>sh (w, g). (zeros sh, (w, g + 1))),
      save_image = (\<lambda>t name nrow l. (Inr (), l))\<rparr>"

definition toy_args :: args where
  "toy_args =
     \<lparr>batch_size = 2, epochs = 1, no_cuda = True, seed = 1, log_interval = 10,
      recon_loss = ''BCE''\<rparr>"

definition toy_dataset :: dataset where
  "toy_dataset = [(zeros [3, 32, 32], 0), (zeros [3, 32, 32], 1)]"

definition toy_loader :: dataloader where
  "toy_loader = \<lparr>dataset = toy_dataset, loader_batch_size = 2, shuffle = True\<rparr>"

definition toy_time :: struct_time where
  "toy_time = \<lparr>tm_year = 2019, tm_mon = 5, tm_mday = 17, tm_hour = 9\<rparr>"

definition toy_state :: "(int \<times> nat) state" where
  "toy_state = \<lparr>lib = (0, 0), out = []\<rparr>"

section \<open>Properties of the loss function\<close>

lemma broadcast_rev_same: "broadcast_rev s s = Some s"
  by (induction s) auto

lemma broadcast_shapes_same: "broadcast_shapes s s = Some s"
  by (simp add: broadcast_shapes_def broadcast_rev_same)

lemma concat_chunks:
  "length xs = a * n \<Longrightarrow> concat (map (\<lambda>i. take n (drop (i * n) xs)) [0..<a]) = xs"
proof (induction a arbitrary: xs rule: nat.induct)
  case zero
  then show ?case by simp
next
  case (Suc a)
  have len: "length (take (a * n) xs) = a * n" using Suc.prems by simp
  have "concat (map (\<lambda>i. take n (drop (i * n) xs)) [0..<a])
      = concat (map (\<lambda>i. take n (drop (i * n) (take (a * n) xs))) [0..<a])"
  proof (rule arg_cong [where f = concat], rule map_cong [OF refl])
    fix i assume "i \<in> set [0..<a]"
    then have "i * n + n \<le> a * n"
      by (metis atLeastLessThan_iff set_upt Suc_leI mult_Suc mult_le_mono1 add.commute)
    then show "take n (drop (i * n) xs) = take n (drop (i * n) (take (a * n) xs))"
      by (simp add: drop_take)
  qed
  also have "\<dots> = take (a * n) xs" using Suc.IH [OF len] .
  finally show ?case using Suc.prems by simp
qed

lemma expand_elems_same:
  "length xs = prod_list s \<Longrightarrow> expand_elems s s xs = xs"
proof (induction s arbitrary: xs)
  case Nil
  then show ?case by simp
next
  case (Cons a s)
  have "\<And>i. i \<in> set [0..<a] \<Longrightarrow>
      expand_elems s s (take (prod_list s) (drop (i * prod_list s) xs))
        = take (prod_list s) (drop (i * prod_list s) xs)"
  proof -
    fix i assume "i \<in> set [0..<a]"
    then have "i * prod_list s + prod_list s \<le> a * prod_list s"
      by (metis atLeastLessThan_iff set_upt Suc_leI mult_Suc mult_le_mono1 add.commute)
    then have "length (take (prod_list s) (drop (i * prod_list s) xs)) = prod_list s"
      using Cons.prems by simp
    then show "expand_elems s s (take (prod_list s) (drop (i * prod_list s) xs))
        = take (prod_list s) (drop (i * prod_list s) xs)"
      by (rule Cons.IH)
  qed
  then have "map (\<lambda>i. expand_elems s s (take (prod_list s) (drop (i * prod_list s) xs))) [0..<a]
           = map (\<lambda>i. take (prod_list s) (drop (i * prod_list s) xs)) [0..<a]"
    by (intro map_cong refl)
  then have "expand_elems (a # s) (a # s) xs
           = concat (map (\<lambda>i. take (prod_list s) (drop (i * prod_list s) xs)) [0..<a])"
    by (simp only: expand_elems.simps) simp
  also have "\<dots> = xs" using Cons.prems by (intro concat_chunks) simp
  finally show ?case .
qed

lemma expand_same: "wf_tensor t \<Longrightarrow> expand t (dims t) = t"
  by (simp add: expand_def wf_tensor_def numel_def expand_elems_same)

lemma broadcast_tensors_same:
  "wf_tensor a \<Longrightarrow> wf_tensor b \<Longrightarrow> dims a = dims b \<Longrightarrow> broadcast_tensors a b = Inr (a, b)"
  by (simp add: broadcast_tensors_def broadcast_shapes_same) (metis expand_same)

lemma tensor_sub_same:
  "wf_tensor a \<Longrightarrow> wf_tensor b \<Longrightarrow> dims a = dims b \<Longrightarrow>
   tensor_sub a b = Inr \<lparr>dims = dims a, elems = map2 (\<lambda>p q. p - q) (elems a) (elems b)\<rparr>"
  by (simp add: tensor_sub_def broadcast_tensors_same)

lemma mse_loss_same:
  "wf_tensor a \<Longrightarrow> wf_tensor b \<Longrightarrow> dims a = dims b \<Longrightarrow>
   mse_loss a b = Inr (sum_list (map2 (\<lambda>p q. (p - q)\<^sup>2) (elems a) (elems b)))"
  by (simp add: mse_loss_def broadcast_tensors_same)

lemma kl_fuse:
  "length ls = length ms \<Longrightarrow>
   map2 (\<lambda>p q. p - q) (map2 (\<lambda>p q. p - q) (map (\<lambda>v. 1 + v) ls) (map (\<lambda>v. v\<^sup>2) ms)) (map exp ls)
     = map2 (\<lambda>l m. 1 + l - m\<^sup>2 - exp l) ls (ms :: real list)"
  by (induction ls ms rule: list_induct2) auto

lemma KLD_same:
  assumes "wf_tensor mu" "wf_tensor logvar" "dims mu = dims logvar"
  shows "KLD mu logvar =
     Inr (- 0.5 * sum_list (map2 (\<lambda>l m. 1 + l - m\<^sup>2 - exp l) (elems logvar) (elems mu)))"
proof -
  have len: "length (elems mu) = length (elems logvar)"
    using assms by (simp add: wf_tensor_def numel_def)
  have 1: "tensor_sub (scalar_add 1 logvar) (tensor_pow mu 2)
      = Inr \<lparr>dims = dims logvar,
             elems = map2 (\<lambda>p q. p - q) (map (\<lambda>v. 1 + v) (elems logvar)) (map (\<lambda>v. v\<^sup>2) (elems mu))\<rparr>"
    using assms by (subst tensor_sub_same) (simp_all add: wf_tensor_def numel_def scalar_add_def tensor_pow_def)
  have 2: "tensor_sub \<lparr>dims = dims logvar,
             elems = map2 (\<lambda>p q. p - q) (map (\<lambda>v. 1 + v) (elems logvar)) (map (\<lambda>v. v\<^sup>2) (elems mu))\<rparr>
            (tensor_exp logvar)
      = Inr \<lparr>dims = dims logvar,
             elems = map2 (\<lambda>p q. p - q)
                (map2 (\<lambda>p q. p - q) (map (\<lambda>v. 1 + v) (elems logvar)) (map (\<lambda>v. v\<^sup>2) (elems mu)))
                (map exp (elems logvar))\<rparr>"
    using assms len by (subst tensor_sub_same) (simp_all add: wf_tensor_def numel_def tensor_exp_def)
  show ?thesis
    using len by (simp add: KLD_def 1 2 kl_fuse tensor_sum_def)
qed

lemma sum_list_map2_nth:
  "length xs = length ys \<Longrightarrow>
   sum_list (map2 f xs ys) = (\<Sum>k<length xs. f (xs ! k) (ys ! k) :: real)"
  by (simp add: sum_list_sum_nth atLeast0LessThan)

lemma sum_rows:
  fixes g :: "nat \<Rightarrow> real" and B D :: nat
  shows "(\<Sum>k<B * D. g k) = (\<Sum>i<B. \<Sum>j<D. g (i * D + j))"
proof -
  have "(\<Sum>i<B. \<Sum>j<D. g (i * D + j)) = (\<Sum>i<B. sum g {i * D..<i * D + D})"
  proof (rule sum.cong [OF refl])
    fix i
    have "sum g {i * D..<i * D + D} = (\<Sum>j = 0..<D. g (j + i * D))"
      using sum.shift_bounds_nat_ivl [of g 0 "i * D" D] by (simp add: add.commute)
    then show "(\<Sum>j<D. g (i * D + j)) = sum g {i * D..<i * D + D}"
      by (simp add: atLeast0LessThan add.commute)
  qed
  also have "\<dots> = sum g {..<B * D}" by (rule sum.nat_group)
  finally show ?thesis by simp
qed

text \<open>
  Claim C2.  For mean and log-variance tensors of the same shape \<open>B \<times> D\<close>, the KL term
  computed by the loss function is minus one half of the sum, over all \<open>B\<close> examples and
  all \<open>D\<close> latent dimensions, of \<open>1 + logvar - mu\<^sup>2 - exp logvar\<close>: a sum, with no division
  by the batch size or by the number of latent dimensions.
\<close>

theorem KLD_closed_form:
  assumes "wf_tensor mu" "wf_tensor logvar" "dims mu = [B, D]" "dims logvar = [B, D]"
  shows "KLD mu logvar = Inr (KL_term_spec B D (at2 mu) (at2 logvar))"
proof -
  have len: "length (elems logvar) = B * D" "length (elems mu) = B * D"
    using assms by (simp_all add: wf_tensor_def numel_def)
  have "sum_list (map2 (\<lambda>l m. 1 + l - m\<^sup>2 - exp l) (elems logvar) (elems mu))
      = (\<Sum>k<B * D. 1 + elems logvar ! k - (elems mu ! k)\<^sup>2 - exp (elems logvar ! k))"
    using len by (simp add: sum_list_map2_nth)
  also have "\<dots> = (\<Sum>i<B. \<Sum>j<D. 1 + at2 logvar i j - (at2 mu i j)\<^sup>2 - exp (at2 logvar i j))"
    using assms by (simp add: sum_rows at2_def)
  finally show ?thesis
    using assms by (simp add: KLD_same KL_term_spec_def)
qed

theorem KLD_closed_form_witness:
  "wf_tensor \<lparr>dims = [1, 2], elems = [3, 0]\<rparr> \<and> wf_tensor \<lparr>dims = [1, 2], elems = [0, 1]\<rparr>
   \<and> KLD \<lparr>dims = [1, 2], elems = [3, 0]\<rparr> \<lparr>dims = [1, 2], elems = [0, 1]\<rparr>
       = Inr ((7 + exp 1) / 2)"
proof -
  let ?mu = "\<lparr>dims = [1, 2], elems = [3, 0]\<rparr>" and ?lv = "\<lparr>dims = [1, 2], elems = [0, 1]\<rparr>"
  have wf: "wf_tensor ?mu" "wf_tensor ?lv"
    by (simp_all add: wf_tensor_def numel_def)
  have v: "KL_term_spec 1 2 (at2 ?mu) (at2 ?lv) = (7 + exp 1) / 2"
    by (simp add: KL_term_spec_def at2_def lessThan_nat_numeral lessThan_Suc field_simps)
  show ?thesis
    using KLD_closed_form [OF wf, of 1 2] wf v by simp
qed

lemma wf_full: "wf_tensor (full s c)"
  by (simp add: full_def wf_tensor_def numel_def)

lemma wf_zeros: "wf_tensor (zeros s)"
  by (simp add: zeros_def wf_tensor_def numel_def)

lemma dims_full: "dims (full s c) = s" and elems_full: "elems (full s c) = replicate (prod_list s) c"
  by (simp_all add: full_def)

lemma dims_zeros: "dims (zeros s) = s" and elems_zeros: "elems (zeros s) = replicate (prod_list s) 0"
  by (simp_all add: zeros_def)

lemma KLD_zeros: "KLD (zeros s) (zeros s) = Inr 0"
  by (simp add: KLD_same wf_zeros elems_zeros sum_list_replicate)

lemma all_zero_elems: "\<forall>v\<in>set xs. v = (0::real) \<Longrightarrow> xs = replicate (length xs) 0"
  by (induction xs) auto

text \<open>
  Claim C5.  When every entry of the mean and of the log-variance is 0, for all examples
  and all latent dimensions, the KL term of the loss function is exactly 0.
\<close>

theorem KLD_prior_zero:
  assumes "wf_tensor mu" "wf_tensor logvar" "dims mu = dims logvar"
    and "\<forall>v\<in>set (elems mu). v = 0" "\<forall>v\<in>set (elems logvar). v = 0"
  shows "KLD mu logvar = Inr 0"
proof -
  have len: "length (elems mu) = length (elems logvar)"
    using assms(1-3) by (simp add: wf_tensor_def numel_def)
  have "elems mu = replicate (length (elems logvar)) 0"
    using all_zero_elems [OF assms(4)] len by simp
  moreover have "elems logvar = replicate (length (elems logvar)) 0"
    using all_zero_elems [OF assms(5)] .
  ultimately have "map2 (\<lambda>l m. 1 + l - m\<^sup>2 - exp l) (elems logvar) (elems mu)
      = replicate (length (elems logvar)) 0"
    by (metis (no_types, lifting) zip_replicate map_replicate min.idem case_prod_conv
        add_0_right diff_zero exp_zero diff_self zero_power2)
  then show ?thesis
    using assms(1-3) by (simp add: KLD_same sum_list_replicate)
qed

theorem KLD_prior_zero_witness:
  "wf_tensor (zeros [2, 128]) \<and> set (elems (zeros [2, 128])) = {0}
   \<and> KLD (zeros [2, 128]) (zeros [2, 128]) = Inr 0"
proof -
  have s: "set (elems (zeros [2, 128])) = {0}"
    by (simp add: elems_zeros)
  then have z: "\<forall>v\<in>set (elems (zeros [2, 128])). v = 0"
    by simp
  show ?thesis
    using KLD_prior_zero [OF wf_zeros wf_zeros refl z z] wf_zeros s by blast
qed

lemma view_rows:
  "numel x mod 3072 = 0 \<Longrightarrow>
   view x [- 1, 3072] = Inr \<lparr>dims = [numel x div 3072, 3072], elems = elems x\<rparr>"
  by (simp add: view_def)

lemma view_elems: "view x sz = Inr xv \<Longrightarrow> elems xv = elems x"
  by (auto simp: view_def Let_def split: if_splits)

lemma bce_check_None_iff:
  "bce_check ps = None \<longleftrightarrow> (\<forall>(r, y)\<in>set ps. 0 \<le> r \<and> r \<le> 1 \<and> 0 \<le> y \<and> y \<le> 1)"
  by (induction ps rule: bce_check.induct) auto

lemma bce_check_replicate:
  "bce_check (replicate n (r, y)) =
     (if n = 0 then None
      else if \<not> (0 \<le> r \<and> r \<le> 1) then Some InputRangeError
      else if \<not> (0 \<le> y \<and> y \<le> 1) then Some TargetRangeError
      else None)"
  by (induction n) auto

lemma bce_check_error:
  "bce_check ps = Some e \<Longrightarrow> e = InputRangeError \<or> e = TargetRangeError"
  by (induction ps rule: bce_check.induct) (auto split: if_splits)

lemma bce_check_input:
  "\<forall>(r, y)\<in>set ps. 0 \<le> y \<and> y \<le> 1 \<Longrightarrow>
   bce_check ps = Some InputRangeError \<longleftrightarrow> (\<exists>(r, y)\<in>set ps. \<not> (0 \<le> r \<and> r \<le> 1))"
  by (induction ps rule: bce_check.induct) auto

lemma scenario_view: "view (zeros [2, 3, 32, 32]) [- 1, 3072] = Inr (zeros [2, 3072])"
  by (simp add: view_rows numel_def zeros_def)

lemma scenario_bce: "\<exists>b. binary_cross_entropy (full [2, 3072] 0.5) (zeros [2, 3072]) = Inr b"
  by (simp add: binary_cross_entropy_def full_def zeros_def bce_check_replicate)

lemma scenario_mse: "mse_loss (full [2, 3072] 0.5) (zeros [2, 3072]) = Inr 1536"
  by (simp add: mse_loss_same wf_full wf_zeros dims_full dims_zeros elems_full elems_zeros
      sum_list_replicate power2_eq_square)

lemma scenario_loss:
  "loss_function (full [2, 3072] 0.5) (zeros [2, 3, 32, 32]) (zeros [2, D]) (zeros [2, D]) ''MSE''
     = Inr 1536"
  using scenario_bce scenario_mse by (auto simp: loss_function_def scenario_view KLD_zeros)

text \<open>
  Claim C6.  For a batch of 2 all-zero images of shape \<open>2 \<times> 3 \<times> 32 \<times> 32\<close>, a reconstruction
  (of the shape \<open>2 \<times> 3072\<close> that the loss compares against) whose every entry is 0.5, and
  mean and log-variance 0 for both examples, the squared-error term is 1536, the KL term
  is 0 and the loss function with the squared-error metric returns 1536.
\<close>

theorem loss_scenario_1536:
  "view (zeros [2, 3, 32, 32]) [- 1, 3072] = Inr (zeros [2, 3072])
   \<and> mse_loss (full [2, 3072] 0.5) (zeros [2, 3072]) = Inr (2 * 3 * 32 * 32 * 0.25)
   \<and> KLD (zeros [2, D]) (zeros [2, D]) = Inr 0
   \<and> loss_function (full [2, 3072] 0.5) (zeros [2, 3, 32, 32]) (zeros [2, D]) (zeros [2, D])
        ''MSE'' = Inr 1536"
  using scenario_view scenario_mse KLD_zeros [of "[2, D]"] scenario_loss [of D] by simp

lemma clamped_log_nonpos: "v \<le> 1 \<Longrightarrow> clamped_log v \<le> 0"
  by (simp add: clamped_log_def)

lemma bce_elem_nonneg:
  assumes "0 \<le> r" "r \<le> 1" "0 \<le> y" "y \<le> 1"
  shows "0 \<le> bce_elem r y"
proof -
  have "0 \<le> (y - 1) * clamped_log (1 - r)"
    using assms by (intro mult_nonpos_nonpos clamped_log_nonpos) simp_all
  moreover have "y * clamped_log r \<le> 0"
    using assms by (intro mult_nonneg_nonpos clamped_log_nonpos) simp_all
  ultimately show ?thesis by (simp add: bce_elem_def)
qed

lemma binary_cross_entropy_nonneg:
  assumes "\<forall>v\<in>set (elems inp). 0 \<le> v \<and> v \<le> 1" "\<forall>v\<in>set (elems target). 0 \<le> v \<and> v \<le> 1"
    and "binary_cross_entropy inp target = Inr b"
  shows "0 \<le> b"
proof -
  have b: "b = sum_list (map2 bce_elem (elems inp) (elems target))"
    using assms(3) by (simp add: binary_cross_entropy_def split: if_splits option.splits)
  show ?thesis
    unfolding b
  proof (rule sum_list_nonneg)
    fix z assume "z \<in> set (map2 bce_elem (elems inp) (elems target))"
    then obtain r y where "(r, y) \<in> set (zip (elems inp) (elems target))" "z = bce_elem r y"
      by auto
    moreover have "r \<in> set (elems inp)" "y \<in> set (elems target)"
      using calculation(1) by (auto dest: set_zip_leftD set_zip_rightD)
    ultimately show "0 \<le> z"
      using assms(1,2) by (simp add: bce_elem_nonneg)
  qed
qed

lemma mse_loss_nonneg: "mse_loss inp target = Inr m \<Longrightarrow> 0 \<le> m"
  by (auto simp: mse_loss_def split: sum.splits intro!: sum_list_nonneg)

text \<open>
  Claim C7.  When every entry of the reconstruction and of the original image batch lies
  in the unit interval, the reconstruction term of the loss function is non-negative,
  both the cross-entropy term and the squared-error term.
\<close>

theorem recon_terms_nonneg:
  assumes "\<forall>v\<in>set (elems recon_x). 0 \<le> v \<and> v \<le> 1"
    and "\<forall>v\<in>set (elems x). 0 \<le> v \<and> v \<le> 1"
    and "view x [- 1, 3072] = Inr xv"
  shows "(\<forall>b. binary_cross_entropy recon_x xv = Inr b \<longrightarrow> 0 \<le> b)
       \<and> (\<forall>m. mse_loss recon_x xv = Inr m \<longrightarrow> 0 \<le> m)"
  using assms binary_cross_entropy_nonneg [of recon_x xv] mse_loss_nonneg [of recon_x xv]
  by (simp add: view_elems)

theorem recon_terms_nonneg_witness:
  "set (elems (full [1, 3072] 1)) = {1}
   \<and> set (elems (zeros [1, 3, 32, 32])) = {0}
   \<and> view (zeros [1, 3, 32, 32]) [- 1, 3072] = Inr (zeros [1, 3072])
   \<and> binary_cross_entropy (full [1, 3072] 1) (zeros [1, 3072]) = Inr 307200
   \<and> mse_loss (full [1, 3072] 1) (zeros [1, 3072]) = Inr 3072
   \<and> (0::real) \<le> 307200 \<and> (0::real) \<le> 3072"
proof -
  have r: "\<forall>v\<in>set (elems (full [1, 3072] 1)). 0 \<le> v \<and> v \<le> 1"
    by (simp add: elems_full)
  have x: "\<forall>v\<in>set (elems (zeros [1, 3, 32, 32])). 0 \<le> v \<and> v \<le> 1"
    by (simp add: elems_zeros)
  have v: "view (zeros [1, 3, 32, 32]) [- 1, 3072] = Inr (zeros [1, 3072])"
    by (simp add: view_rows numel_def zeros_def)
  have b: "binary_cross_entropy (full [1, 3072] 1) (zeros [1, 3072]) = Inr 307200"
    by (simp add: binary_cross_entropy_def dims_full dims_zeros elems_full elems_zeros
        bce_check_replicate bce_elem_def clamped_log_def sum_list_replicate)
  have m: "mse_loss (full [1, 3072] 1) (zeros [1, 3072]) = Inr 3072"
    by (simp add: mse_loss_same wf_full wf_zeros dims_full dims_zeros elems_full elems_zeros
        sum_list_replicate)
  have "set (elems (full [1, 3072] 1)) = {1}" "set (elems (zeros [1, 3, 32, 32])) = {0}"
    by (simp_all add: elems_full elems_zeros)
  then show ?thesis
    using recon_terms_nonneg [OF r x v] v b m by simp
qed

text \<open>
  Claim C9.  A selector other than the string \<open>BCE\<close> is never rejected: the loss function
  behaves as for \<open>MSE\<close>, it raises exactly when it would raise for \<open>BCE\<close> (that is, only
  because of the tensors), and otherwise returns the squared-error term plus the KL term.
\<close>

theorem selector_fallback:
  assumes "recon_type \<noteq> ''BCE''"
  shows "loss_function recon_x x mu logvar recon_type = loss_function recon_x x mu logvar ''MSE''
       \<and> ((\<exists>e. loss_function recon_x x mu logvar recon_type = Inl e)
            \<longleftrightarrow> (\<exists>e. loss_function recon_x x mu logvar ''BCE'' = Inl e))
       \<and> (\<forall>xv BCE MSE kld.
             view x [- 1, 3072] = Inr xv \<and> binary_cross_entropy recon_x xv = Inr BCE
             \<and> mse_loss recon_x xv = Inr MSE \<and> KLD mu logvar = Inr kld
             \<longrightarrow> loss_function recon_x x mu logvar recon_type = Inr (MSE + kld))"
  using assms by (auto simp: loss_function_def split: sum.splits)

theorem selector_fallback_witness:
  "''mse'' \<noteq> ''BCE''
   \<and> loss_function (full [2, 3072] 0.5) (zeros [2, 3, 32, 32]) (zeros [2, 128]) (zeros [2, 128]) ''mse''
       = Inr 1536"
proof -
  have ne: "''mse'' \<noteq> ''BCE''" by simp
  obtain b where b: "binary_cross_entropy (full [2, 3072] 0.5) (zeros [2, 3072]) = Inr b"
    using scenario_bce by blast
  have "loss_function (full [2, 3072] 0.5) (zeros [2, 3, 32, 32]) (zeros [2, 128]) (zeros [2, 128]) ''mse''
      = Inr (1536 + 0)"
    using selector_fallback [OF ne, of "full [2, 3072] 0.5" "zeros [2, 3, 32, 32]"
        "zeros [2, 128]" "zeros [2, 128]"] scenario_view b scenario_mse KLD_zeros
    by blast
  then show ?thesis
    using ne by simp
qed

lemma tensor_sub_error: "tensor_sub a b = Inl e \<Longrightarrow> e = BroadcastError"
  by (auto simp: tensor_sub_def broadcast_tensors_def split: sum.splits option.splits)

lemma mse_loss_error: "mse_loss a b = Inl e \<Longrightarrow> e = BroadcastError"
  by (auto simp: mse_loss_def broadcast_tensors_def split: sum.splits option.splits)

lemma KLD_error: "KLD mu logvar = Inl e \<Longrightarrow> e = BroadcastError"
  by (auto simp: KLD_def split: sum.splits dest: tensor_sub_error)

lemma view_wf: "wf_tensor x \<Longrightarrow> view x [- 1, 3072] = Inr xv \<Longrightarrow> wf_tensor xv"
  by (auto simp: view_def wf_tensor_def numel_def split: if_splits)

lemma binary_cross_entropy_error:
  "binary_cross_entropy inp target = Inl e \<Longrightarrow>
   e = TargetSizeError \<or> e = InputRangeError \<or> e = TargetRangeError"
  by (auto simp: binary_cross_entropy_def split: if_splits option.splits dest: bce_check_error)

lemma binary_cross_entropy_Inr:
  assumes "wf_tensor inp" "wf_tensor target" "binary_cross_entropy inp target = Inr b"
  shows "(\<forall>v\<in>set (elems inp). 0 \<le> v \<and> v \<le> 1) \<and> (\<forall>v\<in>set (elems target). 0 \<le> v \<and> v \<le> 1)"
proof -
  from assms(3) have d: "dims target = dims inp"
    and c: "bce_check (zip (elems inp) (elems target)) = None"
    by (auto simp: binary_cross_entropy_def split: if_splits option.splits)
  have len: "length (elems inp) = length (elems target)"
    using assms(1,2) d by (simp add: wf_tensor_def numel_def)
  have "\<forall>p\<in>set (zip (elems inp) (elems target)).
          0 \<le> fst p \<and> fst p \<le> 1 \<and> 0 \<le> snd p \<and> snd p \<le> 1"
    using c by (auto simp: bce_check_None_iff)
  then have "\<forall>v\<in>fst ` set (zip (elems inp) (elems target)). 0 \<le> v \<and> v \<le> 1"
    and "\<forall>v\<in>snd ` set (zip (elems inp) (elems target)). 0 \<le> v \<and> v \<le> 1"
    by auto
  then show ?thesis
    using len by (simp flip: set_map)
qed

lemma binary_cross_entropy_input:
  assumes "wf_tensor inp" "wf_tensor target" "dims target = dims inp"
    and "\<forall>v\<in>set (elems target). 0 \<le> v \<and> v \<le> 1"
  shows "binary_cross_entropy inp target = Inl InputRangeError
     \<longleftrightarrow> (\<exists>v\<in>set (elems inp). \<not> (0 \<le> v \<and> v \<le> 1))"
proof -
  have len: "length (elems inp) = length (elems target)"
    using assms(1-3) by (simp add: wf_tensor_def numel_def)
  have t: "\<forall>(r, y)\<in>set (zip (elems inp) (elems target)). 0 \<le> y \<and> y \<le> 1"
    using assms(4) by (auto dest: set_zip_rightD)
  have "(\<exists>(r, y)\<in>set (zip (elems inp) (elems target)). \<not> (0 \<le> r \<and> r \<le> 1))
     \<longleftrightarrow> (\<exists>v\<in>fst ` set (zip (elems inp) (elems target)). \<not> (0 \<le> v \<and> v \<le> 1))"
    by force
  also have "\<dots> \<longleftrightarrow> (\<exists>v\<in>set (elems inp). \<not> (0 \<le> v \<and> v \<le> 1))"
    using len by (simp flip: set_map)
  finally show ?thesis
    using assms(3) bce_check_input [OF t]
    by (auto simp: binary_cross_entropy_def split: option.splits)
qed

text \<open>
  Claim C10.  The cross-entropy term is evaluated whatever the selector is, before the
  selector is looked at: an exception of that evaluation is the outcome of the call for
  every selector.  So, also for the squared-error metric, the loss function only returns
  a value when every entry of the reconstruction lies in the unit interval (and every
  entry of the image batch does); when some entry of the reconstruction lies outside, the
  cross-entropy evaluation raises, and the call with it.  With the shapes agreeing and the
  image batch in range, the range error for the reconstruction is raised exactly when
  some entry of it lies outside the unit interval.
\<close>

theorem bce_precondition:
  assumes "wf_tensor recon_x" "wf_tensor x"
  shows "(\<forall>xv e. view x [- 1, 3072] = Inr xv \<and> binary_cross_entropy recon_x xv = Inl e
            \<longrightarrow> loss_function recon_x x mu logvar recon_type = Inl e)
       \<and> (\<forall>r. loss_function recon_x x mu logvar recon_type = Inr r
            \<longrightarrow> (\<forall>v\<in>set (elems recon_x). 0 \<le> v \<and> v \<le> 1)
                \<and> (\<forall>v\<in>set (elems x). 0 \<le> v \<and> v \<le> 1))
       \<and> (\<forall>xv. view x [- 1, 3072] = Inr xv
               \<and> (\<exists>v\<in>set (elems recon_x). \<not> (0 \<le> v \<and> v \<le> 1))
            \<longrightarrow> (\<exists>e. e \<in> {TargetSizeError, InputRangeError, TargetRangeError}
                     \<and> binary_cross_entropy recon_x xv = Inl e
                     \<and> loss_function recon_x x mu logvar recon_type = Inl e))
       \<and> (\<forall>xv. view x [- 1, 3072] = Inr xv \<and> dims xv = dims recon_x
               \<and> (\<forall>v\<in>set (elems x). 0 \<le> v \<and> v \<le> 1)
            \<longrightarrow> (loss_function recon_x x mu logvar recon_type = Inl InputRangeError
                  \<longleftrightarrow> (\<exists>v\<in>set (elems recon_x). \<not> (0 \<le> v \<and> v \<le> 1))))"
proof (intro conjI allI impI)
  fix xv e
  assume "view x [- 1, 3072] = Inr xv \<and> binary_cross_entropy recon_x xv = Inl e"
  then show "loss_function recon_x x mu logvar recon_type = Inl e"
    by (simp add: loss_function_def)
next
  fix r assume "loss_function recon_x x mu logvar recon_type = Inr r"
  then obtain xv b where v: "view x [- 1, 3072] = Inr xv"
    and b: "binary_cross_entropy recon_x xv = Inr b"
    by (auto simp: loss_function_def split: sum.splits)
  from binary_cross_entropy_Inr [OF assms(1) view_wf [OF assms(2) v] b]
  show "\<forall>v\<in>set (elems recon_x). 0 \<le> v \<and> v \<le> 1" "\<forall>v\<in>set (elems x). 0 \<le> v \<and> v \<le> 1"
    by (simp_all add: view_elems [OF v])
next
  fix xv
  assume a: "view x [- 1, 3072] = Inr xv \<and> (\<exists>v\<in>set (elems recon_x). \<not> (0 \<le> v \<and> v \<le> 1))"
  show "\<exists>e. e \<in> {TargetSizeError, InputRangeError, TargetRangeError}
           \<and> binary_cross_entropy recon_x xv = Inl e
           \<and> loss_function recon_x x mu logvar recon_type = Inl e"
  proof (cases "binary_cross_entropy recon_x xv")
    case (Inl e)
    then show ?thesis
      using a binary_cross_entropy_error [OF Inl] by (auto simp: loss_function_def)
  next
    case (Inr b)
    from binary_cross_entropy_Inr [OF assms(1) view_wf [OF assms(2)] Inr] a
    show ?thesis by blast
  qed
next
  fix xv
  assume a: "view x [- 1, 3072] = Inr xv \<and> dims xv = dims recon_x
               \<and> (\<forall>v\<in>set (elems x). 0 \<le> v \<and> v \<le> 1)"
  then have v: "view x [- 1, 3072] = Inr xv" by simp
  have i: "binary_cross_entropy recon_x xv = Inl InputRangeError
     \<longleftrightarrow> (\<exists>v\<in>set (elems recon_x). \<not> (0 \<le> v \<and> v \<le> 1))"
    using a by (intro binary_cross_entropy_input assms view_wf [OF assms(2) v])
      (simp_all add: view_elems [OF v])
  show "loss_function recon_x x mu logvar recon_type = Inl InputRangeError
     \<longleftrightarrow> (\<exists>v\<in>set (elems recon_x). \<not> (0 \<le> v \<and> v \<le> 1))"
  proof (cases "binary_cross_entropy recon_x xv")
    case (Inl e)
    then show ?thesis
      using v i by (simp add: loss_function_def)
  next
    case (Inr b)
    then have "loss_function recon_x x mu logvar recon_type \<noteq> Inl InputRangeError"
      using v by (auto simp: loss_function_def split: sum.splits
          dest: mse_loss_error KLD_error)
    then show ?thesis
      using Inr i by simp
  qed
qed

theorem bce_precondition_witness:
  "wf_tensor (full [1, 3072] 2) \<and> wf_tensor (zeros [1, 3, 32, 32])
   \<and> view (zeros [1, 3, 32, 32]) [- 1, 3072] = Inr (zeros [1, 3072])
   \<and> dims (zeros [1, 3072]) = dims (full [1, 3072] 2)
   \<and> set (elems (zeros [1, 3, 32, 32])) = {0}
   \<and> set (elems (full [1, 3072] 2)) = {2}
   \<and> loss_function (full [1, 3072] 2) (zeros [1, 3, 32, 32]) (zeros [1, 128]) (zeros [1, 128]) ''MSE''
       = Inl InputRangeError
   \<and> loss_function (full [1, 3072] 0.5) (full [1, 3, 32, 32] 2) (zeros [1, 128]) (zeros [1, 128])
        ''MSE'' = Inl TargetRangeError
   \<and> loss_function (full [2, 3072] 0.5) (zeros [2, 3, 32, 32]) (zeros [2, 128]) (zeros [2, 128]) ''MSE''
       = Inr 1536"
proof -
  have v: "view (zeros [1, 3, 32, 32]) [- 1, 3072] = Inr (zeros [1, 3072])"
    by (simp add: view_rows numel_def zeros_def)
  have d: "dims (zeros [1, 3072]) = dims (full [1, 3072] 2)"
    by (simp add: dims_zeros dims_full)
  have x: "set (elems (zeros [1, 3, 32, 32])) = {0}"
    and r: "set (elems (full [1, 3072] 2)) = {2}"
    by (simp_all add: elems_zeros elems_full)
  have xr: "\<forall>v\<in>set (elems (zeros [1, 3, 32, 32])). 0 \<le> v \<and> v \<le> 1"
    and e: "\<exists>v\<in>set (elems (full [1, 3072] 2)). \<not> (0 \<le> v \<and> v \<le> 1)"
    unfolding x r by simp_all
  note pre = bce_precondition [where recon_x = "full [1, 3072] 2" and x = "zeros [1, 3, 32, 32]"
      and mu = "zeros [1, 128]" and logvar = "zeros [1, 128]" and recon_type = "''MSE''",
      OF wf_full wf_zeros]
  have 1: "loss_function (full [1, 3072] 2) (zeros [1, 3, 32, 32]) (zeros [1, 128]) (zeros [1, 128]) ''MSE''
       = Inl InputRangeError"
    using pre v d xr e by blast
  have tv: "view (full [1, 3, 32, 32] 2) [- 1, 3072] = Inr (full [1, 3072] 2)"
    by (simp add: view_rows numel_def full_def)
  have tb: "binary_cross_entropy (full [1, 3072] 0.5) (full [1, 3072] 2) = Inl TargetRangeError"
    by (simp add: binary_cross_entropy_def dims_full elems_full bce_check_replicate)
  have 2: "loss_function (full [1, 3072] 0.5) (full [1, 3, 32, 32] 2) (zeros [1, 128]) (zeros [1, 128])
        ''MSE'' = Inl TargetRangeError"
    unfolding loss_function_def tv sum.case tb ..
  have 3: "loss_function (full [2, 3072] 0.5) (zeros [2, 3, 32, 32]) (zeros [2, 128]) (zeros [2, 128]) ''MSE''
       = Inr 1536"
    by (rule scenario_loss)
  show ?thesis
    using wf_full wf_zeros v d x r 1 2 3 by blast
qed

section \<open>The data loaders\<close>

lemma concat_chunks_id: "0 < n \<Longrightarrow> concat (chunks n xs) = xs"
proof (induction n xs rule: chunks.induct)
  case (1 n xs)
  show ?case
  proof (cases "xs = []")
    case True
    then show ?thesis by (simp add: chunks.simps)
  next
    case False
    with 1 show ?thesis by (subst chunks.simps) simp
  qed
qed


lemma mset_map_nth_perm:
  assumes "mset order = mset [0..<length ds]"
  shows "mset (map ((!) ds) order) = mset ds"
proof -
  have "mset (map ((!) ds) order) = image_mset ((!) ds) (mset order)" by simp
  also have "\<dots> = mset (map ((!) ds) [0..<length ds])" using assms by simp
  also have "\<dots> = mset ds" by (simp add: map_nth)
  finally show ?thesis .
qed

lemma DataLoader_Inr:
  "DataLoader ds bs sh = Inr ld \<Longrightarrow>
   dataset ld = ds \<and> loader_batch_size ld = bs \<and> shuffle ld = sh \<and> 0 < bs \<and> (sh \<longrightarrow> ds \<noteq> [])"
  by (auto simp: DataLoader_def split: if_splits)

section \<open>What a statement leaves unchanged in the library\<close>

lemma keeps_return: "w (lib (snd (return v s))) = w (lib s)"
  by (simp add: return_def)

lemma keeps_raise: "w (lib (snd (raise e s))) = w (lib s)"
  by (simp add: raise_def)

lemma keeps_pure: "w (lib (snd (pure r s))) = w (lib s)"
  by (simp add: pure_def)

lemma keeps_print: "w (lib (snd (print ev s))) = w (lib s)"
  by (simp add: print_def)

lemma keeps_lift: "(\<And>l. w (f l) = w l) \<Longrightarrow> w (lib (snd (lift f s))) = w (lib s)"
  by (simp add: lift_def)

lemma keeps_draw: "(\<And>l. w (snd (f l)) = w l) \<Longrightarrow> w (lib (snd (draw f s))) = w (lib s)"
  by (simp add: draw_def split: prod.splits) (metis snd_conv)

lemma keeps_call: "(\<And>l. w (snd (f l)) = w l) \<Longrightarrow> w (lib (snd (call f s))) = w (lib s)"
  by (simp add: call_def split: prod.splits) (metis snd_conv)

lemma keeps_bind:
  assumes "\<And>s. w (lib (snd (m s))) = w (lib s)"
    and "\<And>v s. w (lib (snd (f v s))) = w (lib s)"
  shows "w (lib (snd (bind m f s))) = w (lib s)"
proof (cases "m s")
  case (Pair r s1)
  then have "w (lib s1) = w (lib s)"
    using assms(1) [of s] by simp
  then show ?thesis
    using Pair assms(2) by (cases r) (simp_all add: bind_def)
qed

lemma keeps_for_loop:
  assumes "\<And>x acc s. w (lib (snd (body x acc s))) = w (lib s)"
  shows "w (lib (snd (for_loop xs body acc s))) = w (lib s)"
proof (induction xs arbitrary: acc s)
  case Nil
  show ?case by (simp add: keeps_return)
next
  case (Cons x xs)
  show ?case
    by (simp only: for_loop.simps) (rule keeps_bind, rule assms, rule Cons.IH)
qed

lemma keeps_no_grad:
  assumes "\<And>b l. w (set_grad_enabled L b l) = w l"
    and "\<And>s. w (lib (snd (body s))) = w (lib s)"
  shows "w (lib (snd (no_grad L body s))) = w (lib s)"
proof -
  obtain r s1 where b: "body (s\<lparr>lib := set_grad_enabled L False (lib s)\<rparr>) = (r, s1)"
    by (cases "body (s\<lparr>lib := set_grad_enabled L False (lib s)\<rparr>)")
  have "w (lib s1) = w (lib (s\<lparr>lib := set_grad_enabled L False (lib s)\<rparr>))"
    using assms(2) [of "s\<lparr>lib := set_grad_enabled L False (lib s)\<rparr>"] b by simp
  then show ?thesis
    using b assms(1) by (simp add: no_grad_def Let_def)
qed

lemma keeps_save:
  assumes "\<And>t name nrow l. w (snd (save_image L t name nrow l)) = w l"
  shows "w (lib (snd (save L t name nrow s))) = w (lib s)"
  unfolding save_def
  by (rule keeps_bind) (rule keeps_call, rule assms, rule keeps_print)

lemma keeps_if:
  assumes "c \<Longrightarrow> w (lib (snd (m1 s))) = w (lib s)" and "\<not> c \<Longrightarrow> w (lib (snd (m2 s))) = w (lib s)"
  shows "w (lib (snd ((if c then m1 else m2) s))) = w (lib s)"
  using assms by simp

lemma keeps_case_prod:
  assumes "\<And>x y. w (lib (snd (f x y s))) = w (lib s)"
  shows "w (lib (snd ((case p of (x, y) \<Rightarrow> f x y) s))) = w (lib s)"
  using assms by (cases p) simp

lemmas keeps_intros =
  keeps_bind keeps_pure keeps_return keeps_raise keeps_print keeps_if keeps_case_prod keeps_for_loop

lemma keeps_test_batch:
  assumes "\<And>x l. w (snd (model_call L x l)) = w l"
    and "\<And>t name nrow l. w (snd (save_image L t name nrow l)) = w l"
  shows "w (lib (snd (test_batch L a ld ts epoch ix acc s))) = w (lib s)"
proof -
  obtain i idxs where ix: "ix = (i, idxs)" by (cases ix)
  show ?thesis
    unfolding ix test_batch_def prod.case
    by (intro keeps_intros keeps_call keeps_save assms)
qed

text \<open>
  Claim C4.  The evaluation loop leaves the learnable weights as they were.  It calls the
  library only to switch the network to evaluation mode, to switch gradient recording
  off and back, to draw the order of the examples, to run the network forward and to
  save the comparison image; none of these changes the weights, and the loop itself
  never steps the optimiser.  \<open>w\<close> reads the weights off the library state.
\<close>

theorem test_keeps_weights:
  assumes "\<forall>l. w (model_eval L l) = w l"
    and "\<forall>b l. w (set_grad_enabled L b l) = w l"
    and "\<forall>n l. w (snd (randperm L n l)) = w l"
    and "\<forall>x l. w (snd (model_call L x l)) = w l"
    and "\<forall>t name nrow l. w (snd (save_image L t name nrow l)) = w l"
  shows "w (lib (snd (test L a ld ts epoch s))) = w (lib s)"
  unfolding test_def
  by (intro keeps_intros keeps_lift keeps_no_grad keeps_draw keeps_test_batch)
     (simp_all add: assms)

theorem test_keeps_weights_witness:
  "fst (lib (snd (test toy_lib toy_args
      toy_loader (timestring toy_time) 1
      toy_state))) = 0
   \<and> fst (optimizer_step toy_lib (lib toy_state)) = 1"
proof -
  have "fst (lib (snd (test toy_lib toy_args
      toy_loader (timestring toy_time) 1
      toy_state))) = fst (lib toy_state)"
    by (rule test_keeps_weights) (simp_all add: toy_lib_def split: prod.splits list.splits)
  then show ?thesis
    by (simp add: toy_state_def toy_lib_def)
qed

section \<open>Running statements\<close>

lemma return_apply: "return v s = (Inr v, s)"
  by (simp add: return_def)

lemma raise_apply: "raise e s = (Inl e, s)"
  by (simp add: raise_def)

lemma pure_apply: "pure r s = (r, s)"
  by (simp add: pure_def)

lemma lift_apply: "lift f s = (Inr (), s\<lparr>lib := f (lib s)\<rparr>)"
  by (simp add: lift_def)

lemma print_apply: "print ev s = (Inr (), s\<lparr>out := out s @ [ev]\<rparr>)"
  by (simp add: print_def)

lemma bind_Inr_iff:
  "bind m f s = (Inr v, s') \<longleftrightarrow> (\<exists>u s1. m s = (Inr u, s1) \<and> f u s1 = (Inr v, s'))"
  by (auto simp: bind_def split: prod.splits sum.splits)

lemma pure_Inr_iff: "pure r s = (Inr v, s') \<longleftrightarrow> r = Inr v \<and> s' = s"
  by (auto simp: pure_def)

lemma call_Inr_iff:
  "call f s = (Inr v, s') \<longleftrightarrow> (\<exists>l. f (lib s) = (Inr v, l) \<and> s' = s\<lparr>lib := l\<rparr>)"
  by (auto simp: call_def split: prod.splits)

lemma draw_Inr_iff:
  "draw f s = (Inr v, s') \<longleftrightarrow> (\<exists>l. f (lib s) = (v, l) \<and> s' = s\<lparr>lib := l\<rparr>)"
  by (auto simp: draw_def split: prod.splits)

lemma loss_function_MSE:
  "loss_function recon_x x mu logvar ''MSE'' = Inr loss \<Longrightarrow>
   \<exists>xv MSE kld. view x [- 1, 3072] = Inr xv \<and> mse_loss recon_x xv = Inr MSE
      \<and> KLD mu logvar = Inr kld \<and> loss = MSE + kld"
  by (auto simp: loss_function_def split: sum.splits)

lemma train_batch_Inr:
  assumes "train_batch L a ld epoch (i, idxs) acc s = (Inr acc', s')"
  shows "\<exists>data recon_batch mu logvar l loss.
           fetch ld idxs = Inr data
         \<and> model_call L data (zero_grad L (lib s)) = (Inr (recon_batch, mu, logvar), l)
         \<and> loss_function recon_batch data mu logvar ''MSE'' = Inr loss
         \<and> acc' = acc + loss"
  using assms unfolding train_batch_def prod.case
  by (auto simp: bind_Inr_iff pure_Inr_iff call_Inr_iff lift_apply return_apply)

lemma test_batch_Inr:
  assumes "test_batch L a ld ts epoch (i, idxs) acc s = (Inr acc', s')"
  shows "\<exists>data recon_batch mu logvar l loss.
           fetch ld idxs = Inr data
         \<and> model_call L data (lib s) = (Inr (recon_batch, mu, logvar), l)
         \<and> loss_function recon_batch data mu logvar ''MSE'' = Inr loss
         \<and> acc' = acc + loss"
  using assms unfolding test_batch_def prod.case
  by (auto simp: bind_Inr_iff pure_Inr_iff call_Inr_iff return_apply)

lemma print_Inr_iff: "print ev s = (Inr v, s') \<longleftrightarrow> s' = s\<lparr>out := out s @ [ev]\<rparr>"
  by (auto simp: print_def)

lemma lift_Inr_iff: "lift f s = (Inr v, s') \<longleftrightarrow> s' = s\<lparr>lib := f (lib s)\<rparr>"
  by (auto simp: lift_def)

lemma return_Inr_iff: "return u s = (Inr v, s') \<longleftrightarrow> v = u \<and> s' = s"
  by (auto simp: return_def)

lemma raise_Inr_iff: "raise e s = (Inr v, s') \<longleftrightarrow> False"
  by (simp add: raise_def)

lemmas run_iffs =
  bind_Inr_iff pure_Inr_iff call_Inr_iff draw_Inr_iff print_Inr_iff lift_Inr_iff
  return_Inr_iff raise_Inr_iff

lemma save_Inr:
  "save L t name nrow s = (Inr v, s') \<Longrightarrow> out s' = out s @ [SavedImage name t nrow]"
  by (auto simp: save_def run_iffs)

lemma no_grad_Inr:
  "no_grad L body s = (Inr v, s') \<Longrightarrow>
   \<exists>s1. body (s\<lparr>lib := set_grad_enabled L False (lib s)\<rparr>) = (Inr v, s1) \<and> out s' = out s1"
  by (auto simp: no_grad_def Let_def split: prod.splits)

lemma py_div_Inr: "py_div p q = Inr v \<Longrightarrow> q \<noteq> 0 \<and> v = p / q"
  by (auto simp: py_div_def split: if_splits)

section \<open>The losses of a pass\<close>

lemma batch_loss_specI:
  assumes "fetch ld idxs = Inr data"
    and "model_call L data l = (Inr (recon_batch, mu, logvar), l')"
    and "loss_function recon_batch data mu logvar ''MSE'' = Inr loss"
  shows "batch_loss_spec L ld idxs loss"
  using assms loss_function_MSE [OF assms(3)] unfolding batch_loss_spec_def by blast

lemma train_batch_out:
  "train_batch L a ld epoch ix acc s = (Inr acc', s') \<Longrightarrow> \<exists>evs. out s' = out s @ evs"
  by (cases ix) (auto simp: train_batch_def run_iffs split: if_splits)

lemma train_batch_run:
  assumes "train_batch L a ld epoch (i, idxs) acc s = (Inr acc', s')"
  shows "\<exists>loss evs. batch_loss_spec L ld idxs loss \<and> acc' = acc + loss \<and> out s' = out s @ evs"
proof -
  from train_batch_Inr [OF assms] obtain data recon_batch mu logvar l loss where
    *: "fetch ld idxs = Inr data"
       "model_call L data (zero_grad L (lib s)) = (Inr (recon_batch, mu, logvar), l)"
       "loss_function recon_batch data mu logvar ''MSE'' = Inr loss"
    and acc': "acc' = acc + loss"
    by blast
  have "batch_loss_spec L ld idxs loss"
    using * by (rule batch_loss_specI)
  then show ?thesis
    using train_batch_out [OF assms] acc' by blast
qed

lemma recon_block_out:
  assumes "(if i = 0 then
             bind (pure (size0 data)) (\<lambda>d0.
             bind (pure (slice0 data (min d0 8))) (\<lambda>originals.
             bind (pure (view recon_batch [batch_size a, 3, 32, 32])) (\<lambda>images.
             bind (pure (slice0 images (min d0 8))) (\<lambda>reconstructions.
             bind (pure (cat originals reconstructions)) (\<lambda>comparison.
             save L comparison name (min d0 8))))))
           else return ()) s = (Inr v, s')"
  shows "if i = 0 then \<exists>t nrow. out s' = out s @ [SavedImage name t nrow] else out s' = out s"
proof (cases "i = 0")
  case True
  with assms obtain t nrow where "save L t name nrow s = (Inr v, s')"
    by (auto simp: bind_Inr_iff pure_Inr_iff)
  from save_Inr [OF this] show ?thesis
    using True by auto
next
  case False
  with assms show ?thesis
    by (simp add: return_Inr_iff)
qed

lemma test_batch_out:
  assumes "test_batch L a ld ts epoch (i, idxs) acc s = (Inr acc', s')"
  shows "if i = 0
         then \<exists>t nrow. out s' = out s @
                [SavedImage (''results_c/reconstruction_'' @ ts @ str epoch @ ''.png'') t nrow]
         else out s' = out s"
proof -
  define block :: "tensor \<Rightarrow> tensor \<Rightarrow> (unit, 'a) prog" where
    "block = (\<lambda>data recon_batch.
       if i = 0 then
         bind (pure (size0 data)) (\<lambda>d0.
         bind (pure (slice0 data (min d0 8))) (\<lambda>originals.
         bind (pure (view recon_batch [batch_size a, 3, 32, 32])) (\<lambda>images.
         bind (pure (slice0 images (min d0 8))) (\<lambda>reconstructions.
         bind (pure (cat originals reconstructions)) (\<lambda>comparison.
         save L comparison
           (''results_c/reconstruction_'' @ ts @ str epoch @ ''.png'')
           (min d0 8))))))
       else return ())"
  have "test_batch L a ld ts epoch (i, idxs) acc =
     bind (pure (fetch ld idxs)) (\<lambda>data.
     bind (call (model_call L data)) (\<lambda>(recon_batch, mu, logvar).
     bind (pure (loss_function recon_batch data mu logvar ''MSE'')) (\<lambda>loss.
     bind (block data recon_batch) (\<lambda>_.
     return (acc + loss)))))"
    by (simp add: test_batch_def block_def)
  with assms obtain data recon_batch l where
    "block data recon_batch (s\<lparr>lib := l\<rparr>) = (Inr (), s')"
    by (auto simp: bind_Inr_iff pure_Inr_iff call_Inr_iff return_Inr_iff)
  from recon_block_out [OF this [unfolded block_def]]
  have "if i = 0
        then \<exists>t nrow. out s' = out (s\<lparr>lib := l\<rparr>) @
               [SavedImage (''results_c/reconstruction_'' @ ts @ str epoch @ ''.png'') t nrow]
        else out s' = out (s\<lparr>lib := l\<rparr>)" .
  moreover have "out (s\<lparr>lib := l\<rparr>) = out s"
    by simp
  ultimately show ?thesis
    by (simp only:)
qed

lemma test_batch_run:
  assumes "test_batch L a ld ts epoch (i, idxs) acc s = (Inr acc', s')"
  shows "\<exists>loss evs. batch_loss_spec L ld idxs loss \<and> acc' = acc + loss \<and> out s' = out s @ evs"
proof -
  from test_batch_Inr [OF assms] obtain data recon_batch mu logvar l loss where
    *: "fetch ld idxs = Inr data"
       "model_call L data (lib s) = (Inr (recon_batch, mu, logvar), l)"
       "loss_function recon_batch data mu logvar ''MSE'' = Inr loss"
    and acc': "acc' = acc + loss"
    by blast
  have "batch_loss_spec L ld idxs loss"
    using * by (rule batch_loss_specI)
  moreover have "\<exists>evs. out s' = out s @ evs"
    using test_batch_out [OF assms] by (cases "i = 0") auto
  ultimately show ?thesis
    using acc' by blast
qed

lemma for_loop_losses:
  assumes step: "\<And>i idxs acc s acc' s'. body (i, idxs) acc s = (Inr acc', s') \<Longrightarrow>
      \<exists>loss evs. P idxs loss \<and> acc' = acc + loss \<and> out s' = out s @ evs"
  shows "for_loop (enumerate k bs) body acc s = (Inr acc', s') \<Longrightarrow>
     \<exists>losses evs. list_all2 P bs losses \<and> acc' = acc + sum_list losses \<and> out s' = out s @ evs"
proof (induction bs arbitrary: k acc s)
  case Nil
  then show ?case by (simp add: return_Inr_iff)
next
  case (Cons b bs)
  from Cons.prems obtain u s1 where
    1: "body (k, b) acc s = (Inr u, s1)"
    and 2: "for_loop (enumerate (Suc k) bs) body u s1 = (Inr acc', s')"
    by (auto simp: bind_Inr_iff)
  from step [OF 1] obtain loss e1 where
    l: "P b loss" "u = acc + loss" "out s1 = out s @ e1"
    by blast
  from Cons.IH [OF 2] obtain losses e2 where
    ls: "list_all2 P bs losses" "acc' = u + sum_list losses" "out s' = out s1 @ e2"
    by blast
  have "list_all2 P (b # bs) (loss # losses)" "acc' = acc + sum_list (loss # losses)"
    "out s' = out s @ (e1 @ e2)"
    using l ls by (simp_all add: add.assoc)
  then show ?case by blast
qed

lemma train_run:
  assumes "train L a ld epoch s = (Inr v, s')"
  shows "\<exists>order l0 losses evs.
           randperm L (length (dataset ld)) (model_train L (lib s)) = (order, l0)
         \<and> list_all2 (batch_loss_spec L ld) (batch_indices ld order) losses
         \<and> out s' = out s @ evs @
             [TrainAverage epoch (sum_list losses / real (length (dataset ld)))]"
proof -
  from assms obtain l0 order s1 train_loss avg where
    dr: "randperm L (length (dataset ld)) (model_train L (lib s)) = (order, l0)"
    and loop: "for_loop (enumerate 0 (batch_indices ld order)) (train_batch L a ld epoch) 0
             (s\<lparr>lib := l0\<rparr>) = (Inr train_loss, s1)"
    and dv: "py_div train_loss (real (length (dataset ld))) = Inr avg"
    and s': "s' = s1\<lparr>out := out s1 @ [TrainAverage epoch avg]\<rparr>"
    by (auto simp: train_def run_iffs)
  have "\<exists>losses evs. list_all2 (batch_loss_spec L ld) (batch_indices ld order) losses
          \<and> train_loss = 0 + sum_list losses \<and> out s1 = out (s\<lparr>lib := l0\<rparr>) @ evs"
    using loop by (rule for_loop_losses [rotated]) (rule train_batch_run)
  then obtain losses evs where
    "list_all2 (batch_loss_spec L ld) (batch_indices ld order) losses"
    "train_loss = 0 + sum_list losses" "out s1 = out (s\<lparr>lib := l0\<rparr>) @ evs"
    by blast
  then show ?thesis
    using dr py_div_Inr [OF dv] by (auto simp: s')
qed

lemma test_run:
  assumes "test L a ld ts epoch s = (Inr v, s')"
  shows "\<exists>order l0 losses evs.
           randperm L (length (dataset ld)) (set_grad_enabled L False (model_eval L (lib s)))
             = (order, l0)
         \<and> list_all2 (batch_loss_spec L ld) (batch_indices ld order) losses
         \<and> out s' = out s @ evs @
             [TestLoss (sum_list losses / real (length (dataset ld)))]"
proof -
  define body :: "(real, 'a) prog" where
    "body = bind (draw (randperm L (length (dataset ld)))) (\<lambda>order.
              for_loop (enumerate 0 (batch_indices ld order))
                (test_batch L a ld ts epoch) 0)"
  have "test L a ld ts epoch =
     bind (lift (model_eval L)) (\<lambda>_.
     bind (no_grad L body) (\<lambda>test_loss.
     bind (pure (py_div test_loss (real (length (dataset ld))))) (\<lambda>avg.
     print (TestLoss avg))))"
    by (simp add: test_def body_def)
  with assms obtain test_loss s2 avg where
    ng: "no_grad L body (s\<lparr>lib := model_eval L (lib s)\<rparr>) = (Inr test_loss, s2)"
    and dv: "py_div test_loss (real (length (dataset ld))) = Inr avg"
    and s': "s' = s2\<lparr>out := out s2 @ [TestLoss avg]\<rparr>"
    by (auto simp: bind_Inr_iff pure_Inr_iff lift_Inr_iff print_Inr_iff)
  from no_grad_Inr [OF ng] obtain s3 where
    b: "body (s\<lparr>lib := model_eval L (lib s)\<rparr>\<lparr>lib := set_grad_enabled L False
          (lib (s\<lparr>lib := model_eval L (lib s)\<rparr>))\<rparr>) = (Inr test_loss, s3)"
    and s3: "out s2 = out s3"
    by blast
  from b [unfolded body_def bind_Inr_iff draw_Inr_iff] obtain order l0 where
    dr: "randperm L (length (dataset ld)) (set_grad_enabled L False (model_eval L (lib s)))
           = (order, l0)"
    and loop: "for_loop (enumerate 0 (batch_indices ld order)) (test_batch L a ld ts epoch) 0
                 (s\<lparr>lib := l0\<rparr>) = (Inr test_loss, s3)"
    by auto
  have "\<exists>losses evs. list_all2 (batch_loss_spec L ld) (batch_indices ld order) losses
          \<and> test_loss = 0 + sum_list losses \<and> out s3 = out (s\<lparr>lib := l0\<rparr>) @ evs"
    using loop by (rule for_loop_losses [rotated]) (rule test_batch_run)
  then obtain losses evs where
    "list_all2 (batch_loss_spec L ld) (batch_indices ld order) losses"
    "test_loss = 0 + sum_list losses" "out s3 = out (s\<lparr>lib := l0\<rparr>) @ evs"
    by blast
  then show ?thesis
    using dr py_div_Inr [OF dv] s3 by (auto simp: s')
qed

section \<open>The script on the small instance\<close>

lemma toy_fetch: "fetch toy_loader [0, Suc 0] = Inr (zeros [2, 3, 32, 32])"
  by (simp add: fetch_def toy_loader_def toy_dataset_def stack_def zeros_def
      replicate_add [symmetric])

lemma toy_model_call:
  "model_call toy_lib (zeros [2, 3, 32, 32]) l
     = (Inr (full [2, 3072] 0.5, zeros [2, 2], zeros [2, 2]), l)"
  by (simp add: toy_lib_def dims_zeros)

lemma toy_size0: "size0 (zeros [2, 3, 32, 32]) = Inr 2"
  by (simp add: size0_def dims_zeros)

lemma toy_len_loader: "len_loader toy_loader = 1" "length (dataset toy_loader) = 2"
  by (simp_all add: len_loader_def toy_loader_def toy_dataset_def)

lemma toy_batches: "batch_indices toy_loader [0, Suc 0] = [[0, Suc 0]]"
  by (simp add: batch_indices_def toy_loader_def chunks.simps [of 2 "[0, Suc 0]"]
      chunks.simps [of 2 "[]"])

lemma toy_loss:
  "loss_function (full [2, 3072] (1 / 2)) (zeros [2, 3, 32, 32]) (zeros [2, 2]) (zeros [2, 2])
     ''MSE'' = Inr 1536"
  using scenario_loss [of 2] by simp

lemma toy_train_batch_run:
  "train_batch toy_lib toy_args toy_loader epoch (0, [0, Suc 0]) acc \<lparr>lib = (w, g), out = evs\<rparr>
     = (Inr (acc + 1536),
        \<lparr>lib = (w + 1, g), out = evs @ [TrainProgress epoch 0 2 0 768]\<rparr>)"
proof -
  have ops: "zero_grad toy_lib = (\<lambda>l. l)" "backward toy_lib = (\<lambda>loss l. l)"
    "optimizer_step toy_lib (w, g) = (w + 1, g)" "log_interval toy_args = 10"
    by (simp_all add: toy_lib_def toy_args_def)
  show ?thesis
    unfolding train_batch_def prod.case
    by (simp add: bind_def pure_apply lift_apply call_def return_apply print_apply raise_apply
        toy_fetch toy_model_call toy_loss toy_size0 toy_len_loader py_div_def ops)
qed

lemma toy_train:
  "train toy_lib toy_args toy_loader epoch \<lparr>lib = (w, g), out = evs\<rparr>
     = (Inr (),
        \<lparr>lib = (w + 1, g + 1),
         out = evs @ [TrainProgress epoch 0 2 0 768, TrainAverage epoch 768]\<rparr>)"
proof -
  have ops: "model_train toy_lib = (\<lambda>l. l)" "randperm toy_lib 2 (w, g) = ([0, Suc 0], (w, g + 1))"
    by (simp_all add: toy_lib_def upt_rec)
  show ?thesis
    unfolding train_def
    by (simp add: bind_def lift_apply draw_def pure_apply print_apply return_apply
        toy_len_loader ops toy_batches toy_train_batch_run py_div_def)
qed

lemma toy_comparison:
  "slice0 (zeros [2, 3, 32, 32]) 2 = Inr (zeros [2, 3, 32, 32])"
  "view (full [2, 3072] (1 / 2)) [2, 3, 32, 32] = Inr (full [2, 3, 32, 32] (1 / 2))"
  "slice0 (full [2, 3, 32, 32] (1 / 2)) 2 = Inr (full [2, 3, 32, 32] (1 / 2))"
  "cat (zeros [2, 3, 32, 32]) (full [2, 3, 32, 32] (1 / 2))
     = Inr \<lparr>dims = [4, 3, 32, 32], elems = replicate 6144 0 @ replicate 6144 (1 / 2)\<rparr>"
  by (simp_all add: slice0_def view_def cat_def zeros_def full_def numel_def)

lemma toy_test_batch_run:
  "test_batch toy_lib toy_args toy_loader ts epoch (0, [0, Suc 0]) acc \<lparr>lib = l, out = evs\<rparr>
     = (Inr (acc + 1536),
        \<lparr>lib = l,
         out = evs @ [SavedImage (''results_c/reconstruction_'' @ ts @ str epoch @ ''.png'')
                  \<lparr>dims = [4, 3, 32, 32], elems = replicate 6144 0 @ replicate 6144 (1 / 2)\<rparr>
                  2]\<rparr>)"
proof -
  have ops: "save_image toy_lib = (\<lambda>t name nrow l. (Inr (), l))" "batch_size toy_args = 2"
    by (simp_all add: toy_lib_def toy_args_def)
  show ?thesis
    unfolding test_batch_def prod.case
    by (simp add: bind_def pure_apply call_def return_apply print_apply save_def
        toy_fetch toy_model_call toy_loss toy_size0 toy_comparison ops)
qed

lemma toy_test:
  "test toy_lib toy_args toy_loader ts epoch \<lparr>lib = (w, g), out = evs\<rparr>
     = (Inr (),
        \<lparr>lib = (w, g + 1),
         out = evs @ [SavedImage (''results_c/reconstruction_'' @ ts @ str epoch @ ''.png'')
                  \<lparr>dims = [4, 3, 32, 32], elems = replicate 6144 0 @ replicate 6144 (1 / 2)\<rparr>
                  2,
                TestLoss 768]\<rparr>)"
proof -
  have ops: "model_eval toy_lib = (\<lambda>l. l)" "randperm toy_lib 2 (w, g) = ([0, Suc 0], (w, g + 1))"
    "set_grad_enabled toy_lib = (\<lambda>b l. l)"
    by (simp_all add: toy_lib_def upt_rec)
  show ?thesis
    unfolding test_def
    by (simp add: bind_def lift_apply draw_def pure_apply print_apply return_apply no_grad_def
        toy_len_loader ops toy_batches toy_test_batch_run py_div_def)
qed


lemma toy_loaders:
  "train_loader toy_args toy_dataset = Inr toy_loader"
  "test_loader toy_args toy_dataset = Inr toy_loader"
  "DataLoader toy_dataset (batch_size toy_args) True = Inr toy_loader"
  by (simp_all add: train_loader_def test_loader_def DataLoader_def toy_args_def toy_dataset_def
      toy_loader_def)


section \<open>The two loops and the option\<close>

lemma train_batch_ignores_flag:
  "train_batch L (a\<lparr>recon_loss := v\<rparr>) ld epoch = train_batch L a ld epoch"
  by (simp add: train_batch_def fun_eq_iff split_def cong: if_cong)

lemma test_batch_ignores_flag:
  "test_batch L (a\<lparr>recon_loss := v\<rparr>) ld ts epoch = test_batch L a ld ts epoch"
  by (simp add: test_batch_def fun_eq_iff split_def cong: if_cong)

text \<open>
  Claim C1.  The option \<^verbatim>\<open>recon_loss\<close> has no effect, and both loops use the squared-error
  metric.  Training, evaluation and the whole script are the same for every value of the
  option.  A call of \<^verbatim>\<open>train\<close> that returns has drawn an order of the examples and, for
  each batch of that order, has a loss that is the value of \<^verbatim>\<open>loss_function\<close> called with
  \<open>MSE\<close> on the batch and on what the network returns for it, the squared-error term plus
  the KL term; the last line it prints is the sum of these losses divided by the size of
  the dataset.  The same holds for a call of \<^verbatim>\<open>test\<close> and the line it prints.
\<close>

theorem recon_loss_flag_dead:
  "train L (a\<lparr>recon_loss := v\<rparr>) trn epoch = train L a trn epoch
   \<and> test L (a\<lparr>recon_loss := v\<rparr>) tst ts epoch = test L a tst ts epoch
   \<and> script L (a\<lparr>recon_loss := v\<rparr>) cifar_dataset timestamp = script L a cifar_dataset timestamp
   \<and> (\<forall>u s'. train L a trn epoch s = (Inr u, s') \<longrightarrow>
        (\<exists>order l0 losses evs.
           randperm L (length (dataset trn)) (model_train L (lib s)) = (order, l0)
         \<and> list_all2 (batch_loss_spec L trn) (batch_indices trn order) losses
         \<and> out s' = out s @ evs @
             [TrainAverage epoch (sum_list losses / real (length (dataset trn)))]))
   \<and> (\<forall>u s'. test L a tst ts epoch s = (Inr u, s') \<longrightarrow>
        (\<exists>order l0 losses evs.
           randperm L (length (dataset tst)) (set_grad_enabled L False (model_eval L (lib s)))
             = (order, l0)
         \<and> list_all2 (batch_loss_spec L tst) (batch_indices tst order) losses
         \<and> out s' = out s @ evs @
             [TestLoss (sum_list losses / real (length (dataset tst)))]))"
proof (intro conjI allI impI)
  show "train L (a\<lparr>recon_loss := v\<rparr>) trn epoch = train L a trn epoch"
    by (simp add: train_def train_batch_ignores_flag)
  show "test L (a\<lparr>recon_loss := v\<rparr>) tst ts epoch = test L a tst ts epoch"
    by (simp add: test_def test_batch_ignores_flag)
  show "script L (a\<lparr>recon_loss := v\<rparr>) cifar_dataset timestamp = script L a cifar_dataset timestamp"
    by (simp add: script_def main_def epoch_body_def train_loader_def test_loader_def
        train_def train_batch_ignores_flag test_def test_batch_ignores_flag)
next
  fix u s' assume "train L a trn epoch s = (Inr u, s')"
  then show "\<exists>order l0 losses evs.
           randperm L (length (dataset trn)) (model_train L (lib s)) = (order, l0)
         \<and> list_all2 (batch_loss_spec L trn) (batch_indices trn order) losses
         \<and> out s' = out s @ evs @
             [TrainAverage epoch (sum_list losses / real (length (dataset trn)))]"
    by (rule train_run)
next
  fix u s' assume "test L a tst ts epoch s = (Inr u, s')"
  then show "\<exists>order l0 losses evs.
           randperm L (length (dataset tst)) (set_grad_enabled L False (model_eval L (lib s)))
             = (order, l0)
         \<and> list_all2 (batch_loss_spec L tst) (batch_indices tst order) losses
         \<and> out s' = out s @ evs @
             [TestLoss (sum_list losses / real (length (dataset tst)))]"
    by (rule test_run)
qed

lemma toy_runs:
  "train toy_lib toy_args toy_loader 1 toy_state
     = (Inr (), \<lparr>lib = (1, 1), out = [TrainProgress 1 0 2 0 768, TrainAverage 1 768]\<rparr>)"
  "test toy_lib toy_args toy_loader ts 1 toy_state
     = (Inr (),
        \<lparr>lib = (0, 1),
         out = [SavedImage (''results_c/reconstruction_'' @ ts @ str 1 @ ''.png'')
                  \<lparr>dims = [4, 3, 32, 32], elems = replicate 6144 0 @ replicate 6144 (1 / 2)\<rparr> 2,
                TestLoss 768]\<rparr>)"
  unfolding toy_state_def by (simp_all add: toy_train toy_test)

lemma toy_randperm: "randperm toy_lib 2 l = (order, l0) \<Longrightarrow> order = [0, Suc 0]"
  by (auto simp: toy_lib_def upt_rec split: prod.splits)

lemma toy_bce_loss:
  "loss_function (full [2, 3072] 0.5) (zeros [2, 3, 32, 32]) (zeros [2, 2]) (zeros [2, 2]) ''BCE''
     = Inr (6144 * ln 2)"
proof -
  have "ln (2 :: real) < 1"
    by (rule ln_2_less_1)
  then have "max (- ln (2 :: real)) (- 100) = - ln 2"
    by simp
  then have b: "binary_cross_entropy (full [2, 3072] 0.5) (zeros [2, 3072]) = Inr (6144 * ln 2)"
    by (simp add: binary_cross_entropy_def dims_full dims_zeros elems_full elems_zeros
        bce_check_replicate bce_elem_def clamped_log_def sum_list_replicate ln_div)
  show ?thesis
    unfolding loss_function_def scenario_view sum.case b scenario_mse KLD_zeros by simp
qed

theorem recon_loss_flag_dead_witness:
  "recon_loss toy_args = ''BCE''
   \<and> train toy_lib toy_args toy_loader 1 toy_state
       = (Inr (), \<lparr>lib = (1, 1), out = [TrainProgress 1 0 2 0 768, TrainAverage 1 768]\<rparr>)
   \<and> test toy_lib toy_args toy_loader ''_'' 1 toy_state
       = (Inr (),
          \<lparr>lib = (0, 1),
           out = [SavedImage (''results_c/reconstruction_'' @ ''_'' @ str 1 @ ''.png'')
                    \<lparr>dims = [4, 3, 32, 32], elems = replicate 6144 0 @ replicate 6144 (1 / 2)\<rparr> 2,
                  TestLoss 768]\<rparr>)
   \<and> (\<exists>loss. batch_loss_spec toy_lib toy_loader [0, 1] loss \<and> loss / 2 = 768)
   \<and> loss_function (full [2, 3072] 0.5) (zeros [2, 3, 32, 32]) (zeros [2, 2]) (zeros [2, 2]) ''MSE''
       = Inr 1536
   \<and> loss_function (full [2, 3072] 0.5) (zeros [2, 3, 32, 32]) (zeros [2, 2]) (zeros [2, 2]) ''BCE''
       = Inr (6144 * ln 2)"
proof -
  note dead = recon_loss_flag_dead [where L = toy_lib and a = toy_args and trn = toy_loader
      and epoch = 1 and s = toy_state and v = "''MSE''" and tst = toy_loader and ts = "''_''"
      and cifar_dataset = toy_dataset and timestamp = toy_time]
  note tr = conjunct1 [OF conjunct2 [OF conjunct2 [OF conjunct2 [OF dead]]]]
  from tr [rule_format, OF toy_runs(1)] obtain order l0 losses evs where
    o: "randperm toy_lib (length (dataset toy_loader)) (model_train toy_lib (lib toy_state))
          = (order, l0)"
    and l: "list_all2 (batch_loss_spec toy_lib toy_loader) (batch_indices toy_loader order) losses"
    and e: "out \<lparr>lib = (1 :: int, 1 :: nat),
                 out = [TrainProgress 1 0 2 0 768, TrainAverage 1 768]\<rparr>
          = out toy_state @ evs @
              [TrainAverage 1 (sum_list losses / real (length (dataset toy_loader)))]"
    by blast
  have order: "order = [0, Suc 0]"
    using o by (simp add: toy_len_loader toy_randperm)
  from l obtain loss where loss: "losses = [loss]" "batch_loss_spec toy_lib toy_loader [0, 1] loss"
    unfolding order toy_batches by (auto simp: list_all2_Cons1)
  have "sum_list losses / 2 = 768"
    using e by (simp add: toy_state_def toy_len_loader)
  then have "\<exists>loss. batch_loss_spec toy_lib toy_loader [0, 1] loss \<and> loss / 2 = 768"
    using loss by auto
  moreover have "recon_loss toy_args = ''BCE''"
    by (simp add: toy_args_def)
  ultimately show ?thesis
    using toy_runs(1) toy_runs(2) [of "''_''"] scenario_loss [of 2] toy_bce_loss by blast
qed

section \<open>The dataset of the two loaders\<close>

lemma getitems_Inr: "getitems ds idxs = Inr xs \<Longrightarrow> xs = map ((!) ds) idxs"
  by (induction idxs arbitrary: xs) (auto split: if_splits sum.splits)

lemma fetch_getitems:
  "fetch ld idxs = Inr data \<Longrightarrow>
   getitems (dataset ld) idxs = Inr (map ((!) (dataset ld)) idxs)"
  by (auto simp: fetch_def split: sum.splits dest: getitems_Inr)

lemma pass_getitems:
  "list_all2 (batch_loss_spec L ld) bs losses \<Longrightarrow>
   map (getitems (dataset ld)) bs = map Inr (map (map ((!) (dataset ld))) bs)"
proof (induction rule: list_all2_induct)
  case Nil
  show ?case by simp
next
  case (Cons idxs loss bs losses)
  from Cons.hyps(1) obtain data where "fetch ld idxs = Inr data"
    unfolding batch_loss_spec_def by blast
  from fetch_getitems [OF this] Cons.IH show ?case
    by simp
qed

lemma pass_examples:
  assumes "0 < loader_batch_size ld"
    and "list_all2 (batch_loss_spec L ld) (batch_indices ld order) losses"
  shows "\<exists>xss. map (getitems (dataset ld)) (batch_indices ld order) = map Inr xss
           \<and> concat xss = map ((!) (dataset ld)) order"
proof -
  have "concat (map (map ((!) (dataset ld))) (batch_indices ld order))
      = map ((!) (dataset ld)) (concat (batch_indices ld order))"
    by (simp add: map_concat)
  also have "\<dots> = map ((!) (dataset ld)) order"
    using assms(1) by (simp add: batch_indices_def concat_chunks_id)
  finally show ?thesis
    using pass_getitems [OF assms(2)] by blast
qed

text \<open>
  Claim C3.  The script builds the training loader and the evaluation loader from the one
  dataset: it runs, for every epoch, \<^verbatim>\<open>train\<close> and \<^verbatim>\<open>test\<close> on one and the same loader
  over \<^verbatim>\<open>cifar_dataset\<close> (or ends with the constructor's exception).  A training pass and an
  evaluation pass over that loader that return have both read, batch by batch, the
  examples of \<^verbatim>\<open>cifar_dataset\<close> at the positions their sampler drew; when the sampler of
  the evaluation pass drew a permutation, the pass has read exactly the examples of the
  training dataset, so nothing is held out.
\<close>

theorem script_shares_dataset:
  "script L a cifar_dataset timestamp s =
     (case DataLoader cifar_dataset (batch_size a) True of
        Inl e \<Rightarrow> (Inl e, s)
      | Inr ld \<Rightarrow>
          for_loop [1..epochs a] (\<lambda>epoch _.
            bind (train L a ld epoch) (\<lambda>_.
            bind (test L a ld (timestring timestamp) epoch) (\<lambda>_.
            sample_images L (timestring timestamp) epoch))) () s)
   \<and> (\<forall>ld. DataLoader cifar_dataset (batch_size a) True = Inr ld \<longrightarrow>
        dataset ld = cifar_dataset
      \<and> (\<forall>epoch s1 u s2. train L a ld epoch s1 = (Inr u, s2) \<longrightarrow>
           (\<exists>order l0 xss.
              randperm L (length cifar_dataset) (model_train L (lib s1)) = (order, l0)
            \<and> map (getitems cifar_dataset) (batch_indices ld order) = map Inr xss
            \<and> concat xss = map ((!) cifar_dataset) order))
      \<and> (\<forall>ts epoch s1 u s2. test L a ld ts epoch s1 = (Inr u, s2) \<longrightarrow>
           (\<exists>order l0 xss.
              randperm L (length cifar_dataset)
                (set_grad_enabled L False (model_eval L (lib s1))) = (order, l0)
            \<and> map (getitems cifar_dataset) (batch_indices ld order) = map Inr xss
            \<and> concat xss = map ((!) cifar_dataset) order
            \<and> (mset order = mset [0..<length cifar_dataset]
                 \<longrightarrow> mset (concat xss) = mset cifar_dataset))))"
proof (intro conjI allI impI)
  show "script L a cifar_dataset timestamp s =
     (case DataLoader cifar_dataset (batch_size a) True of
        Inl e \<Rightarrow> (Inl e, s)
      | Inr ld \<Rightarrow>
          for_loop [1..epochs a] (\<lambda>epoch _.
            bind (train L a ld epoch) (\<lambda>_.
            bind (test L a ld (timestring timestamp) epoch) (\<lambda>_.
            sample_images L (timestring timestamp) epoch))) () s)"
    by (simp add: script_def train_loader_def test_loader_def main_def epoch_body_def
        bind_def pure_def split: sum.splits)
next
  fix ld assume "DataLoader cifar_dataset (batch_size a) True = Inr ld"
  then show "dataset ld = cifar_dataset"
    by (simp add: DataLoader_Inr)
next
  fix ld epoch s1 u s2
  assume ld: "DataLoader cifar_dataset (batch_size a) True = Inr ld"
    and run: "train L a ld epoch s1 = (Inr u, s2)"
  have d: "dataset ld = cifar_dataset" and bs: "0 < loader_batch_size ld"
    using DataLoader_Inr [OF ld] by simp_all
  from train_run [OF run] obtain order l0 losses where
    "randperm L (length (dataset ld)) (model_train L (lib s1)) = (order, l0)"
    "list_all2 (batch_loss_spec L ld) (batch_indices ld order) losses"
    by blast
  then show "\<exists>order l0 xss.
              randperm L (length cifar_dataset) (model_train L (lib s1)) = (order, l0)
            \<and> map (getitems cifar_dataset) (batch_indices ld order) = map Inr xss
            \<and> concat xss = map ((!) cifar_dataset) order"
    using pass_examples [OF bs] unfolding d by blast
next
  fix ld ts epoch s1 u s2
  assume ld: "DataLoader cifar_dataset (batch_size a) True = Inr ld"
    and run: "test L a ld ts epoch s1 = (Inr u, s2)"
  have d: "dataset ld = cifar_dataset" and bs: "0 < loader_batch_size ld"
    using DataLoader_Inr [OF ld] by simp_all
  from test_run [OF run] obtain order l0 losses where
    o: "randperm L (length (dataset ld)) (set_grad_enabled L False (model_eval L (lib s1)))
          = (order, l0)"
    and l: "list_all2 (batch_loss_spec L ld) (batch_indices ld order) losses"
    by blast
  from pass_examples [OF bs l] obtain xss where
    x: "map (getitems (dataset ld)) (batch_indices ld order) = map Inr xss"
       "concat xss = map ((!) (dataset ld)) order"
    by blast
  have "mset order = mset [0..<length cifar_dataset] \<longrightarrow> mset (concat xss) = mset cifar_dataset"
    using x(2) mset_map_nth_perm [of order cifar_dataset] unfolding d by simp
  then show "\<exists>order l0 xss.
              randperm L (length cifar_dataset)
                (set_grad_enabled L False (model_eval L (lib s1))) = (order, l0)
            \<and> map (getitems cifar_dataset) (batch_indices ld order) = map Inr xss
            \<and> concat xss = map ((!) cifar_dataset) order
            \<and> (mset order = mset [0..<length cifar_dataset]
                 \<longrightarrow> mset (concat xss) = mset cifar_dataset)"
    using o x unfolding d by blast
qed

theorem script_shares_dataset_witness:
  "DataLoader toy_dataset (batch_size toy_args) True = Inr toy_loader
   \<and> dataset toy_loader = toy_dataset
   \<and> test toy_lib toy_args toy_loader (timestring toy_time) 1 toy_state
       = (Inr (),
          \<lparr>lib = (0, 1),
           out = [SavedImage
                    (''results_c/reconstruction_'' @ timestring toy_time @ str 1 @ ''.png'')
                    \<lparr>dims = [4, 3, 32, 32], elems = replicate 6144 0 @ replicate 6144 (1 / 2)\<rparr> 2,
                  TestLoss 768]\<rparr>)
   \<and> mset [0, 1] = mset [0..<length toy_dataset]
   \<and> (\<exists>xss. map (getitems toy_dataset) [[0, 1]] = map Inr xss \<and> mset (concat xss) = mset toy_dataset)"
proof -
  note share = script_shares_dataset [where L = toy_lib and a = toy_args
      and cifar_dataset = toy_dataset and timestamp = toy_time and s = toy_state]
  note ld = conjunct2 [OF share, rule_format, OF toy_loaders(3)]
  have d: "dataset toy_loader = toy_dataset"
    using ld by blast
  from conjunct2 [OF conjunct2 [OF ld], rule_format, OF toy_runs(2)]
  obtain order l0 xss where
    o: "randperm toy_lib (length toy_dataset)
          (set_grad_enabled toy_lib False (model_eval toy_lib (lib toy_state))) = (order, l0)"
    and x: "map (getitems toy_dataset) (batch_indices toy_loader order) = map Inr xss"
    and m: "mset order = mset [0..<length toy_dataset] \<longrightarrow> mset (concat xss) = mset toy_dataset"
    by blast
  have len: "length toy_dataset = 2"
    by (simp add: toy_dataset_def)
  have order: "order = [0, Suc 0]"
    using o unfolding len by (rule toy_randperm)
  have p: "mset [0, 1] = mset [0..<length toy_dataset]"
    by (simp add: len upt_rec)
  have "map (getitems toy_dataset) [[0, 1]] = map Inr xss" "mset (concat xss) = mset toy_dataset"
    using x m p unfolding order toy_batches by simp_all
  then have "\<exists>xss. map (getitems toy_dataset) [[0, 1]] = map Inr xss
      \<and> mset (concat xss) = mset toy_dataset"
    by blast
  then show ?thesis
    using toy_loaders(3) d toy_runs(2) [of "timestring toy_time"] p by blast
qed

section \<open>The order of the milestones\<close>



















end
